theory Spec2Isabelle
  imports Complex_Main "HOL-Library.Char_ord" "HOL-Library.List_Lexorder" "HOL-Library.AList"
begin

section \<open>Python values, errors and string primitives\<close>

text \<open>
  The dashboard lives in one Python module, \<^verbatim>\<open>src/gui/app.py\<close>. Its functions
  are embedded as HOL functions that keep their names. An exception that the
  source lets escape is a value \<open>Inl e\<close> of a sum type; an exception that the source
  catches is the branch its handler takes. Python's floats are modelled by exact
  rationals: the divisions by 1024 are exact in binary64 for sizes up to \<open>2^53\<close>, and
  the cost arithmetic is the exact counterpart of the binary64 one.
\<close>

datatype error = ValueError | TypeError | AttributeError | OSError | JSONDecodeError

datatype pyval = PNone | PInt int | PFloat rat | PStr string

text \<open>A dict with string keys, in insertion order.\<close>

type_synonym pydict = "(string \<times> pyval) list"

definition dict_get :: "pydict \<Rightarrow> string \<Rightarrow> pyval \<Rightarrow> pyval" where
  "dict_get d k dflt = (case map_of d k of Some v \<Rightarrow> v | None \<Rightarrow> dflt)"

definition dict_set :: "pydict \<Rightarrow> string \<Rightarrow> pyval \<Rightarrow> pydict" where
  "dict_set d k v = AList.update k v d"

text \<open>\<^verbatim>\<open>a or b\<close> on strings: the empty string is falsy.\<close>

definition py_or :: "string \<Rightarrow> string \<Rightarrow> string" where
  "py_or a b = (if a \<noteq> [] then a else b)"

fun startswith :: "string \<Rightarrow> string \<Rightarrow> bool" where
  "startswith s [] = True"
| "startswith [] (p # ps) = False"
| "startswith (c # cs) (p # ps) = (c = p \<and> startswith cs ps)"

text \<open>\<^verbatim>\<open>needle in line\<close>.\<close>

fun contains :: "string \<Rightarrow> string \<Rightarrow> bool" where
  "contains needle [] = (needle = [])"
| "contains needle (c # cs) = (startswith (c # cs) needle \<or> contains needle cs)"

text \<open>\<^verbatim>\<open>s.split(" ", maxsplit)\<close>: cut at the first \<open>maxsplit\<close> spaces.\<close>

fun py_split :: "nat \<Rightarrow> string \<Rightarrow> string list" where
  "py_split 0 s = [s]"
| "py_split (Suc k) s =
     (if CHR '' '' \<in> set s
      then takeWhile (\<lambda>c. c \<noteq> CHR '' '') s # py_split k (tl (dropWhile (\<lambda>c. c \<noteq> CHR '' '') s))
      else [s])"

text \<open>\<^verbatim>\<open>xs[:k]\<close> for an integer \<open>k\<close>: a negative bound counts from the end.\<close>

definition py_take :: "int \<Rightarrow> 'a list \<Rightarrow> 'a list" where
  "py_take k xs = (if 0 \<le> k then take (nat k) xs else take (length xs - nat (- k)) xs)"

text \<open>
  \<^verbatim>\<open>sorted(xs, key=f, reverse=True)\<close>: descending and stable (elements with equal
  keys keep their order), which CPython obtains by reversing before and after a stable
  ascending sort.
\<close>

definition sorted_reverse :: "('a \<Rightarrow> 'k::linorder) \<Rightarrow> 'a list \<Rightarrow> 'a list" where
  "sorted_reverse f xs = rev (sort_key f (rev xs))"

section \<open>Decimal rendering\<close>

text \<open>The decimal digits of a non-negative integer, as \<^verbatim>\<open>str\<close> and \<^verbatim>\<open>%d\<close> give them.\<close>

definition digit_char :: "int \<Rightarrow> char" where
  "digit_char d = ''0123456789'' ! nat d"

function show_nat :: "int \<Rightarrow> string" where
  "show_nat n = (if n < 10 then [digit_char n] else show_nat (n div 10) @ [digit_char (n mod 10)])"
  by pat_completeness auto
termination
  by (relation "measure nat") auto

declare show_nat.simps [simp del]

text \<open>Zero-padded decimal of a given width, as \<^verbatim>\<open>%02d\<close> and \<^verbatim>\<open>%04d\<close> give it.\<close>

definition show_pad :: "nat \<Rightarrow> int \<Rightarrow> string" where
  "show_pad w n = replicate (w - length (show_nat n)) CHR ''0'' @ show_nat n"

text \<open>
  Rounding to the nearest integer, ties to even: what the format \<^verbatim>\<open>.1f\<close> does to a
  binary64 value, which it renders correctly rounded.
\<close>

definition round_half_even :: "rat \<Rightarrow> int" where
  "round_half_even q =
     (let f = \<lfloor>q\<rfloor>; frac = q - of_int f
      in if frac < 1 / 2 then f
         else if 1 / 2 < frac then f + 1
         else if even f then f else f + 1)"

text \<open>
  \<^verbatim>\<open>f"{num:3.1f}"\<close> and \<^verbatim>\<open>f"{num:.1f}"\<close>: one decimal place. The minimum width 3
  never pads, since the shortest rendering \<^verbatim>\<open>0.0\<close> has three characters.
\<close>

definition fmt_1f :: "rat \<Rightarrow> string" where
  "fmt_1f q =
     (let r = round_half_even (\<bar>q\<bar> * 10)
      in (if q < 0 then ''-'' else '''') @ show_nat (r div 10) @ ''.'' @ show_nat (r mod 10))"

section \<open>\<^verbatim>\<open>human_size\<close>\<close>

text \<open>
  \<^verbatim>\<open>
  def human_size(num):
      for unit in ["B", "KB", "MB", "GB", "TB"]:
          if num < 1024.0:
              return f"{num:3.1f} {unit}"
          num /= 1024.0
      return f"{num:.1f} PB"
  \<close>
  The loop over the unit list is the recursion of \<open>human_loop\<close> over that list.
\<close>

fun human_loop :: "rat \<Rightarrow> string list \<Rightarrow> string" where
  "human_loop num [] = fmt_1f num @ '' PB''"
| "human_loop num (unit # units) =
     (if num < 1024 then fmt_1f num @ '' '' @ unit else human_loop (num / 1024) units)"

definition units :: "string list" where
  "units = [''B'', ''KB'', ''MB'', ''GB'', ''TB'']"

definition human_size :: "rat \<Rightarrow> string" where
  "human_size num = human_loop num units"

section \<open>Timestamps\<close>

text \<open>
  A \<^verbatim>\<open>datetime\<close>: the wall-clock reading in microseconds since 0001-01-01T00:00:00,
  and the UTC offset in microseconds when the value is timezone-aware.
\<close>

record datetime =
  dt_micros :: int
  dt_utcoffset :: "int option"

text \<open>
  \<^verbatim>\<open>t_end - t_start\<close>, the \<^verbatim>\<open>timedelta\<close> in microseconds. Subtracting a naive from an
  aware value (or the converse) raises \<^verbatim>\<open>TypeError\<close>; that is \<open>None\<close> here.
\<close>

definition dt_sub :: "datetime \<Rightarrow> datetime \<Rightarrow> int option" where
  "dt_sub a b =
     (case (dt_utcoffset a, dt_utcoffset b) of
        (None, None) \<Rightarrow> Some (dt_micros a - dt_micros b)
      | (Some oa, Some ob) \<Rightarrow> Some ((dt_micros a - oa) - (dt_micros b - ob))
      | _ \<Rightarrow> None)"

definition digit_of :: "char \<Rightarrow> int option" where
  "digit_of c =
     (if CHR ''0'' \<le> c \<and> c \<le> CHR ''9'' then Some (of_char c - of_char CHR ''0'') else None)"

fun digits_of :: "int \<Rightarrow> string \<Rightarrow> int option" where
  "digits_of acc [] = Some acc"
| "digits_of acc (c # cs) =
     (case digit_of c of None \<Rightarrow> None | Some d \<Rightarrow> digits_of (10 * acc + d) cs)"

definition is_leap :: "int \<Rightarrow> bool" where
  "is_leap y = (y mod 4 = 0 \<and> (y mod 100 \<noteq> 0 \<or> y mod 400 = 0))"

definition days_in_month :: "int \<Rightarrow> int \<Rightarrow> int" where
  "days_in_month y m =
     (if m = 2 then (if is_leap y then 29 else 28)
      else if m = 4 \<or> m = 6 \<or> m = 9 \<or> m = 11 then 30 else 31)"

definition days_before_year :: "int \<Rightarrow> int" where
  "days_before_year y = (y - 1) * 365 + (y - 1) div 4 - (y - 1) div 100 + (y - 1) div 400"

definition days_before_month :: "int \<Rightarrow> int \<Rightarrow> int" where
  "days_before_month y m = sum_list (map (days_in_month y) [1..m - 1])"

text \<open>The proleptic Gregorian ordinal of a date; 0001-01-01 is day 1.\<close>

definition ymd2ord :: "int \<Rightarrow> int \<Rightarrow> int \<Rightarrow> int" where
  "ymd2ord y m d = days_before_year y + days_before_month y m + d"

text \<open>
  Modelled from the Python library: \<^verbatim>\<open>datetime.fromisoformat\<close> on the 19-character
  form \<^verbatim>\<open>YYYY-MM-DD?HH:MM:SS\<close> (any separator character between date and time), which
  yields a naive \<^verbatim>\<open>datetime\<close>. The other forms the library reads (fractions of a second,
  UTC offsets, a date alone) are outside this model and map to \<open>None\<close>; \<open>recent_runs\<close>
  takes the parser as a parameter, so what is proved of it for every parser covers them.
\<close>

definition fromisoformat_seconds :: "string \<Rightarrow> datetime option" where
  "fromisoformat_seconds s =
     (if length s = 19 \<and> s ! 4 = CHR ''-'' \<and> s ! 7 = CHR ''-''
         \<and> s ! 13 = CHR '':'' \<and> s ! 16 = CHR '':''
      then
        (case (digits_of 0 (take 4 s), digits_of 0 (take 2 (drop 5 s)),
               digits_of 0 (take 2 (drop 8 s)), digits_of 0 (take 2 (drop 11 s)),
               digits_of 0 (take 2 (drop 14 s)), digits_of 0 (take 2 (drop 17 s))) of
           (Some y, Some m, Some d, Some hh, Some mm, Some ss) \<Rightarrow>
             if 1 \<le> y \<and> 1 \<le> m \<and> m \<le> 12 \<and> 1 \<le> d \<and> d \<le> days_in_month y m
                \<and> hh < 24 \<and> mm < 60 \<and> ss < 60
             then Some \<lparr>dt_micros =
                          ((((ymd2ord y m d - 1) * 24 + hh) * 60 + mm) * 60 + ss) * 1000000,
                        dt_utcoffset = None\<rparr>
             else None
         | _ \<Rightarrow> None)
      else None)"

section \<open>\<^verbatim>\<open>recent_runs\<close>\<close>

datatype note_kind = Start | Done | Fail

record entry =
  e_time :: string
  e_note :: note_kind
  e_line :: string

datatype status = Ok | Failed

text \<open>
  The duration of a run. The source renders it as \<^verbatim>\<open>f"{dur.total_seconds():.1f}s"\<close>, or
  as \<^verbatim>\<open>"n/a"\<close> when the \<^verbatim>\<open>try\<close> block raises; the model keeps the \<^verbatim>\<open>timedelta\<close>
  itself, in microseconds, of which the string is the rendering.
\<close>

datatype duration = Seconds int | NA

record run =
  r_time :: string
  r_status :: status
  r_duration :: duration
  r_note :: string

text \<open>
  The first loop of \<^verbatim>\<open>recent_runs\<close>, over the reversed lines:
  \<^verbatim>\<open>
  for line in reversed(out.splitlines()):
      if "Starting" in line:
          ts, msg = line.split(" ", 1)
          entries.append({"time": ts, "note": "start", "line": line})
      elif "Done." in line or "Deactivated successfully" in line:
          ts, msg = line.split(" ", 1)
          entries.append({"time": ts, "note": "done", "line": line})
      elif "Failed to start" in line or "exit-code" in line:
          ts, msg = line.split(" ", 1)
          entries.append({"time": ts, "note": "fail", "line": line})
  \<close>
  Unpacking \<^verbatim>\<open>ts, msg\<close> from a list that has not exactly two elements raises
  \<^verbatim>\<open>ValueError\<close>, which nothing in \<^verbatim>\<open>recent_runs\<close> catches.
\<close>

definition unpack_entry :: "note_kind \<Rightarrow> string \<Rightarrow> error + entry" where
  "unpack_entry n line =
     (case py_split 1 line of
        [ts, msg] \<Rightarrow> Inr \<lparr>e_time = ts, e_note = n, e_line = line\<rparr>
      | _ \<Rightarrow> Inl ValueError)"

fun classify :: "string list \<Rightarrow> entry list \<Rightarrow> error + entry list" where
  "classify [] entries = Inr entries"
| "classify (line # rest) entries =
     (if contains ''Starting'' line then
        (case unpack_entry Start line of
           Inl e \<Rightarrow> Inl e | Inr en \<Rightarrow> classify rest (entries @ [en]))
      else if contains ''Done.'' line \<or> contains ''Deactivated successfully'' line then
        (case unpack_entry Done line of
           Inl e \<Rightarrow> Inl e | Inr en \<Rightarrow> classify rest (entries @ [en]))
      else if contains ''Failed to start'' line \<or> contains ''exit-code'' line then
        (case unpack_entry Fail line of
           Inl e \<Rightarrow> Inl e | Inr en \<Rightarrow> classify rest (entries @ [en]))
      else classify rest entries)"

text \<open>
  The \<^verbatim>\<open>try\<close> block of the pairing loop:
  \<^verbatim>\<open>
  try:
      t_start = datetime.fromisoformat(start["time"])
      t_end = datetime.fromisoformat(e["time"])
      dur = t_end - t_start
      duration = f"{dur.total_seconds():.1f}s"
  except Exception:
      duration = "n/a"
  \<close>
\<close>

definition pair_duration :: "(string \<Rightarrow> datetime option) \<Rightarrow> string \<Rightarrow> string \<Rightarrow> duration" where
  "pair_duration fromisoformat start_time end_time =
     (case fromisoformat start_time of
        None \<Rightarrow> NA
      | Some t_start \<Rightarrow>
          (case fromisoformat end_time of
             None \<Rightarrow> NA
           | Some t_end \<Rightarrow>
               (case dt_sub t_end t_start of None \<Rightarrow> NA | Some dur \<Rightarrow> Seconds dur)))"

definition make_run :: "(string \<Rightarrow> datetime option) \<Rightarrow> entry \<Rightarrow> entry \<Rightarrow> run" where
  "make_run fromisoformat start e =
     \<lparr>r_time = e_time start,
      r_status = (if e_note e = Done then Ok else Failed),
      r_duration = pair_duration fromisoformat (e_time start) (e_time e),
      r_note = take 80 (last (py_split 2 (e_line e)))\<rparr>"

text \<open>
  The second loop, with the pending start and the runs so far as its state:
  \<^verbatim>\<open>
  for e in entries:
      if e["note"] == "start":
          start = e
      elif e["note"] in ("done", "fail") and start:
          ... runs.append({...}); start = None
      if len(runs) >= max_items:
          break
  \<close>
\<close>

fun pair_loop ::
  "(string \<Rightarrow> datetime option) \<Rightarrow> int \<Rightarrow> entry list \<Rightarrow> entry option \<Rightarrow> run list \<Rightarrow> run list" where
  "pair_loop fromisoformat max_items [] start runs = runs"
| "pair_loop fromisoformat max_items (e # es) start runs =
     (let (start', runs') =
            (if e_note e = Start then (Some e, runs)
             else if (e_note e = Done \<or> e_note e = Fail) \<and> start \<noteq> None
             then (None, runs @ [make_run fromisoformat (the start) e])
             else (start, runs))
      in if max_items \<le> int (length runs') then runs'
         else pair_loop fromisoformat max_items es start' runs')"

text \<open>
  \<^verbatim>\<open>recent_runs(unit, max_items=6)\<close>. The outcome of the \<^verbatim>\<open>journalctl\<close> command is an
  argument: its result code and \<^verbatim>\<open>out.splitlines()\<close>, the lines of its output in the
  order delivered.
\<close>

definition recent_runs ::
  "(string \<Rightarrow> datetime option) \<Rightarrow> int \<times> string list \<Rightarrow> int \<Rightarrow> error + run list" where
  "recent_runs fromisoformat res max_items =
     (case res of (code, lines) \<Rightarrow>
        if code \<noteq> 0 then Inr []
        else (case classify (rev lines) [] of
                Inl e \<Rightarrow> Inl e
              | Inr entries \<Rightarrow> Inr (pair_loop fromisoformat max_items entries None [])))"

section \<open>Calendar time of a modification time\<close>

text \<open>The inverse of \<open>ymd2ord\<close>, as CPython's \<^verbatim>\<open>_ord2ymd\<close> computes it.\<close>

definition ord2ymd :: "int \<Rightarrow> int \<times> int \<times> int" where
  "ord2ymd ordinal =
     (let n = ordinal - 1;
          n400 = n div 146097; n = n mod 146097;
          n100 = n div 36524; n = n mod 36524;
          n4 = n div 1461; n = n mod 1461;
          n1 = n div 365; n = n mod 365;
          year = n400 * 400 + 1 + n100 * 100 + n4 * 4 + n1
      in if n1 = 4 \<or> n100 = 4 then (year - 1, 12, 31)
         else
           (let month = (n + 50) div 32;
                month = (if n < days_before_month year month then month - 1 else month)
            in (year, month, n - days_before_month year month + 1)))"

text \<open>
  Modelled from the Python library:
  \<^verbatim>\<open>time.strftime("%Y-%m-%d %H:%M:%S", time.gmtime(t))\<close> for an instant \<open>t\<close> in
  seconds since 1970-01-01T00:00:00Z that falls in the years 1000 to 9999. Outside that
  range the rendering depends on the platform and is not modelled (\<open>None\<close>);
  \<open>list_local_recursive\<close> takes the formatter as a parameter.
\<close>

definition strftime_gmtime :: "rat \<Rightarrow> string option" where
  "strftime_gmtime t =
     (let secs = \<lfloor>t\<rfloor>; days = secs div 86400; r = secs mod 86400;
          ymd = ord2ymd (days + 719163)
      in case ymd of (y, m, d) \<Rightarrow>
           if 1000 \<le> y \<and> y \<le> 9999
           then Some (show_pad 4 y @ ''-'' @ show_pad 2 m @ ''-'' @ show_pad 2 d @ '' ''
                      @ show_pad 2 (r div 3600) @ '':'' @ show_pad 2 (r mod 3600 div 60)
                      @ '':'' @ show_pad 2 (r mod 60))
           else None)"

section \<open>The local tier\<close>

text \<open>
  The file system is a provider. For a path it tells whether the path exists and lists
  what \<^verbatim>\<open>Path(path).glob("*.tar.gz")\<close> and \<^verbatim>\<open>Path(path).rglob("*")\<close> yield, in the
  order the operating system gives. An entry carries the result of \<^verbatim>\<open>stat()\<close> on it:
  size and modification time, or \<open>None\<close> when \<^verbatim>\<open>stat()\<close> raises \<^verbatim>\<open>OSError\<close>. The
  model is a snapshot: an entry answers every \<^verbatim>\<open>stat()\<close> of one call alike.
\<close>

record fsentry =
  f_name :: string
  f_path :: string
  f_is_file :: bool
  f_stat :: "(int \<times> rat) option"

record filesystem =
  fs_exists :: "string \<Rightarrow> bool"
  fs_glob :: "string \<Rightarrow> fsentry list"
  fs_rglob :: "string \<Rightarrow> fsentry list"

text \<open>
  The text of an error field: \<^verbatim>\<open>err or out\<close> of a failed command, or \<^verbatim>\<open>str(exc)\<close> of
  an exception that was caught.
\<close>

datatype errtext = Text string | Raised error

text \<open>
  The dicts the collectors return have a fixed choice of keys among \<^verbatim>\<open>count\<close>,
  \<^verbatim>\<open>size\<close>, \<^verbatim>\<open>total\<close>, \<^verbatim>\<open>error\<close> and \<^verbatim>\<open>items\<close>: a record of optional fields, \<open>None\<close>
  for a key that is absent.
\<close>

record summary =
  s_count :: "int option"
  s_size :: "int option"
  s_total :: "int option"
  s_error :: "errtext option"
  s_items :: "pydict list option"

text \<open>
  \<^verbatim>\<open>
  def list_local(path):
      p = pathlib.Path(path)
      if not p.exists():
          return {"count": 0, "size": 0, "items": []}
      items = []
      total = 0
      for f in sorted(p.glob("*.tar.gz")):
          stat = f.stat()
          items.append({"name": f.name, "size": stat.st_size, "mtime": stat.st_mtime})
          total += stat.st_size
      return {"count": len(items), "size": total, "items": items}
  \<close>
\<close>

fun local_loop :: "fsentry list \<Rightarrow> pydict list \<Rightarrow> int \<Rightarrow> error + pydict list \<times> int" where
  "local_loop [] items total' = Inr (items, total')"
| "local_loop (f # fs) items total' =
     (case f_stat f of
        None \<Rightarrow> Inl OSError
      | Some (st_size, st_mtime) \<Rightarrow>
          local_loop fs
            (items @ [[(''name'', PStr (f_name f)), (''size'', PInt st_size),
                       (''mtime'', PFloat st_mtime)]])
            (total' + st_size))"

definition list_local :: "filesystem \<Rightarrow> string \<Rightarrow> error + summary" where
  "list_local fs path =
     (if \<not> fs_exists fs path
      then Inr \<lparr>s_count = Some 0, s_size = Some 0, s_total = None, s_error = None,
                s_items = Some []\<rparr>
      else (case local_loop (sort_key f_path (fs_glob fs path)) [] 0 of
              Inl e \<Rightarrow> Inl e
            | Inr (items, total') \<Rightarrow>
                Inr \<lparr>s_count = Some (int (length items)), s_size = Some total',
                     s_total = None, s_error = None, s_items = Some items\<rparr>))"

text \<open>
  \<^verbatim>\<open>
  def list_local_recursive(paths, max_items=200):
      items = []
      for base in paths:
          p = pathlib.Path(base)
          if not p.exists():
              continue
          for f in sorted(p.rglob("*"),
                          key=lambda x: x.stat().st_mtime if x.is_file() else 0, reverse=True):
              if not f.is_file():
                  continue
              try:
                  st = f.stat()
                  items.append({"name": f.name, "path": str(f), "size": st.st_size,
                                "size_h": human_size(st.st_size),
                                "time": time.strftime("%Y-%m-%d %H:%M:%S", time.gmtime(st.st_mtime))})
                  if len(items) >= max_items:
                      return items
              except Exception:
                  continue
      return items
  \<close>
  The sort key is computed outside the \<^verbatim>\<open>try\<close>, so an \<^verbatim>\<open>OSError\<close> of its
  \<^verbatim>\<open>stat()\<close> escapes; inside the \<^verbatim>\<open>try\<close>, a failing \<^verbatim>\<open>stat()\<close> or time rendering
  skips the entry.
\<close>

definition f_mtime :: "fsentry \<Rightarrow> rat" where
  "f_mtime x = (case f_stat x of Some (st_size, st_mtime) \<Rightarrow> st_mtime | None \<Rightarrow> 0)"

definition mtime_key :: "fsentry \<Rightarrow> rat" where
  "mtime_key x = (if f_is_file x then f_mtime x else 0)"

definition sorted_by_mtime :: "fsentry list \<Rightarrow> error + fsentry list" where
  "sorted_by_mtime xs =
     (if list_ex (\<lambda>x. f_is_file x \<and> f_stat x = None) xs then Inl OSError
      else Inr (sorted_reverse mtime_key xs))"

definition recursive_item :: "fsentry \<Rightarrow> int \<Rightarrow> string \<Rightarrow> pydict" where
  "recursive_item f st_size t =
     [(''name'', PStr (f_name f)), (''path'', PStr (f_path f)), (''size'', PInt st_size),
      (''size_h'', PStr (human_size (of_int st_size))), (''time'', PStr t)]"

text \<open>The inner loop; the flag tells whether it left by \<^verbatim>\<open>return items\<close>.\<close>

fun recursive_files ::
  "(rat \<Rightarrow> string option) \<Rightarrow> int \<Rightarrow> fsentry list \<Rightarrow> pydict list \<Rightarrow> pydict list \<times> bool" where
  "recursive_files strftime max_items [] items = (items, False)"
| "recursive_files strftime max_items (f # fs) items =
     (if \<not> f_is_file f then recursive_files strftime max_items fs items
      else
        (case f_stat f of
           None \<Rightarrow> recursive_files strftime max_items fs items
         | Some (st_size, st_mtime) \<Rightarrow>
             (case strftime st_mtime of
                None \<Rightarrow> recursive_files strftime max_items fs items
              | Some t \<Rightarrow>
                  (let items' = items @ [recursive_item f st_size t]
                   in if max_items \<le> int (length items') then (items', True)
                      else recursive_files strftime max_items fs items'))))"

fun recursive_roots ::
  "(rat \<Rightarrow> string option) \<Rightarrow> filesystem \<Rightarrow> int \<Rightarrow> string list \<Rightarrow> pydict list
     \<Rightarrow> error + pydict list" where
  "recursive_roots strftime fs max_items [] items = Inr items"
| "recursive_roots strftime fs max_items (base # paths) items =
     (if \<not> fs_exists fs base then recursive_roots strftime fs max_items paths items
      else
        (case sorted_by_mtime (fs_rglob fs base) of
           Inl e \<Rightarrow> Inl e
         | Inr files \<Rightarrow>
             (case recursive_files strftime max_items files items of
                (items', returned) \<Rightarrow>
                  if returned then Inr items'
                  else recursive_roots strftime fs max_items paths items')))"

definition list_local_recursive ::
  "(rat \<Rightarrow> string option) \<Rightarrow> filesystem \<Rightarrow> string list \<Rightarrow> int \<Rightarrow> error + pydict list" where
  "list_local_recursive strftime fs paths max_items =
     recursive_roots strftime fs max_items paths []"

section \<open>The remote tier\<close>

text \<open>
  The outcome of \<^verbatim>\<open>run_cmd\<close> on the \<^verbatim>\<open>rclone lsjson\<close> command is an argument of the
  collectors: result code, standard output and standard error. \<^verbatim>\<open>run_cmd\<close> itself
  catches every exception and always returns such a triple.

  \<^verbatim>\<open>json.loads\<close> is a parameter \<open>loads\<close>. A listing is a list of objects with the
  optional keys \<^verbatim>\<open>Name\<close>, \<^verbatim>\<open>Size\<close> and \<^verbatim>\<open>ModTime\<close> (\<open>None\<close> for a key that is absent),
  which is what \<^verbatim>\<open>rclone lsjson\<close> prints; \<open>loads\<close> answers \<open>Inl e\<close> for an output on
  which the \<^verbatim>\<open>try\<close> block raises: text that is not JSON, or JSON of another shape.
\<close>

type_synonym cmd_result = "int \<times> string \<times> string"

record rfile =
  rf_name :: "string option"
  rf_size :: "int option"
  rf_modtime :: "string option"

text \<open>\<^verbatim>\<open>f.get("Size", 0)\<close> and \<^verbatim>\<open>f.get("ModTime", "")\<close>.\<close>

definition get_size :: "rfile \<Rightarrow> int" where
  "get_size f = (case rf_size f of Some n \<Rightarrow> n | None \<Rightarrow> 0)"

definition get_modtime :: "rfile \<Rightarrow> string" where
  "get_modtime f = (case rf_modtime f of Some t \<Rightarrow> t | None \<Rightarrow> [])"

text \<open>
  \<^verbatim>\<open>
  def b2_stats(remote, bucket, prefix):
      target = f"{remote}:{bucket}/{prefix}".rstrip("/")
      code, out, err = run_cmd(["rclone", "lsjson", target, ...])
      if code != 0:
          return {"count": 0, "size": 0, "error": err or out}
      try:
          files = json.loads(out)
          total = sum(f.get("Size", 0) for f in files)
          return {"count": len(files), "size": total}
      except Exception as exc:
          return {"count": 0, "size": 0, "error": str(exc)}
  \<close>
\<close>

definition b2_stats :: "(string \<Rightarrow> error + rfile list) \<Rightarrow> cmd_result \<Rightarrow> summary" where
  "b2_stats loads res =
     (case res of (code, out, err) \<Rightarrow>
        if code \<noteq> 0
        then \<lparr>s_count = Some 0, s_size = Some 0, s_total = None,
              s_error = Some (Text (py_or err out)), s_items = None\<rparr>
        else (case loads out of
                Inr files \<Rightarrow>
                  \<lparr>s_count = Some (int (length files)),
                   s_size = Some (sum_list (map get_size files)),
                   s_total = None, s_error = None, s_items = None\<rparr>
              | Inl exc \<Rightarrow>
                  \<lparr>s_count = Some 0, s_size = Some 0, s_total = None,
                   s_error = Some (Raised exc), s_items = None\<rparr>))"

text \<open>
  \<^verbatim>\<open>
  def b2_list(remote, bucket, prefix, max_items=200):
      target = f"{remote}:{bucket}/{prefix}".rstrip("/")
      code, out, err = run_cmd(["rclone", "lsjson", target, ...], timeout=12)
      if code != 0:
          return {"error": err or out, "items": []}
      try:
          files = json.loads(out)
          files_sorted = sorted(files, key=lambda f: f.get("ModTime", ""), reverse=True)[:max_items]
          items = []
          for f in files_sorted:
              items.append({"name": f.get("Name"), "size": f.get("Size", 0),
                            "size_h": human_size(f.get("Size", 0)),
                            "time": f.get("ModTime", "")})
          total = sum(f.get("Size", 0) for f in files)
          return {"items": items, "total": total}
      except Exception as exc:
          return {"error": str(exc), "items": []}
  \<close>
\<close>

definition remote_item :: "rfile \<Rightarrow> pydict" where
  "remote_item f =
     [(''name'', (case rf_name f of Some n \<Rightarrow> PStr n | None \<Rightarrow> PNone)),
      (''size'', PInt (get_size f)),
      (''size_h'', PStr (human_size (of_int (get_size f)))),
      (''time'', PStr (get_modtime f))]"

definition b2_list ::
  "(string \<Rightarrow> error + rfile list) \<Rightarrow> cmd_result \<Rightarrow> int \<Rightarrow> summary" where
  "b2_list loads res max_items =
     (case res of (code, out, err) \<Rightarrow>
        if code \<noteq> 0
        then \<lparr>s_count = None, s_size = None, s_total = None,
              s_error = Some (Text (py_or err out)), s_items = Some []\<rparr>
        else (case loads out of
                Inr files \<Rightarrow>
                  (let files_sorted = py_take max_items (sorted_reverse get_modtime files);
                       items = map remote_item files_sorted
                   in \<lparr>s_count = None, s_size = None,
                        s_total = Some (sum_list (map get_size files)),
                        s_error = None, s_items = Some items\<rparr>)
              | Inl exc \<Rightarrow>
                  \<lparr>s_count = None, s_size = None, s_total = None,
                   s_error = Some (Raised exc), s_items = Some []\<rparr>))"

section \<open>\<^verbatim>\<open>cost_estimates\<close>\<close>

text \<open>
  Python passes dicts by reference, so whether \<^verbatim>\<open>cost_estimates\<close> changes the caller's
  dicts is a question about the object store. The store is a list of dicts, a reference is
  an index into it, and creating a dict appends to the store.
  \<^verbatim>\<open>
  def cost_estimates(items):
      storage_rate = 0.005  # per GB-month
      egress_rate = 0.01    # per GB downloaded
      est = []
      total_storage = 0.0
      total_egress = 0.0
      for it in items:
          size_bytes = it.get("size", 0)
          size_gb = size_bytes / (1024 * 1024 * 1024)
          storage = size_gb * storage_rate
          egress = size_gb * egress_rate
          total_storage += storage
          total_egress += egress
          it_copy = dict(it)
          it_copy["est_storage"] = storage
          it_copy["est_egress"] = egress
          est.append(it_copy)
      return est, total_storage, total_egress
  \<close>
\<close>

type_synonym heap = "pydict list"

definition storage_rate :: rat where
  "storage_rate = 5 / 1000"

definition egress_rate :: rat where
  "egress_rate = 1 / 100"

text \<open>\<^verbatim>\<open>v / d\<close> for a number \<open>d\<close>: \<^verbatim>\<open>TypeError\<close> unless \<open>v\<close> is a number.\<close>

fun truediv :: "pyval \<Rightarrow> rat \<Rightarrow> error + rat" where
  "truediv (PInt n) d = Inr (of_int n / d)"
| "truediv (PFloat q) d = Inr (q / d)"
| "truediv PNone d = Inl TypeError"
| "truediv (PStr s) d = Inl TypeError"

text \<open>
  The loop. \<open>it\<close> is a reference; one that points to no dict of the store has no
  \<^verbatim>\<open>get\<close> (\<^verbatim>\<open>AttributeError\<close>). \<open>h1\<close> is the store after \<^verbatim>\<open>dict(it)\<close>, whose result
  \<open>it_copy\<close> is the new reference; the two assignments write at \<open>it_copy\<close>.
\<close>

fun cost_loop ::
  "heap \<Rightarrow> nat list \<Rightarrow> nat list \<Rightarrow> rat \<Rightarrow> rat \<Rightarrow> heap \<times> (error + nat list \<times> rat \<times> rat)" where
  "cost_loop h [] est total_storage total_egress = (h, Inr (est, total_storage, total_egress))"
| "cost_loop h (it # items) est total_storage total_egress =
     (if length h \<le> it then (h, Inl AttributeError)
      else
        (case truediv (dict_get (h ! it) ''size'' (PInt 0)) (1024 * 1024 * 1024) of
           Inl e \<Rightarrow> (h, Inl e)
         | Inr size_gb \<Rightarrow>
             (let storage = size_gb * storage_rate;
                  egress = size_gb * egress_rate;
                  it_copy = length h;
                  h1 = h @ [h ! it];
                  h2 = h1[it_copy := dict_set (h1 ! it_copy) ''est_storage'' (PFloat storage)];
                  h3 = h2[it_copy := dict_set (h2 ! it_copy) ''est_egress'' (PFloat egress)]
              in cost_loop h3 items (est @ [it_copy])
                   (total_storage + storage) (total_egress + egress))))"

definition cost_estimates :: "heap \<Rightarrow> nat list \<Rightarrow> heap \<times> (error + nat list \<times> rat \<times> rat)" where
  "cost_estimates h items = cost_loop h items [] 0 0"

section \<open>\<^verbatim>\<open>api_backups\<close>\<close>

text \<open>
  A call \<^verbatim>\<open>cost_estimates(xs)\<close> on a list of dicts that the caller has just built: the
  store holds these dicts, the argument refers to them in order, and the caller reads the
  returned dicts from the store.
\<close>

definition call_cost_estimates :: "pydict list \<Rightarrow> error + pydict list \<times> rat \<times> rat" where
  "call_cost_estimates xs =
     (case cost_estimates xs [0..<length xs] of
        (h, Inl e) \<Rightarrow> Inl e
      | (h, Inr (est, total_storage, total_egress)) \<Rightarrow>
          Inr (map (\<lambda>a. h ! a) est, total_storage, total_egress))"

text \<open>\<^verbatim>\<open>{**d, "items": costed, "total_storage": s, "total_egress": e}\<close>.\<close>

record tier = summary +
  t_total_storage :: rat
  t_total_egress :: rat

definition with_costs :: "summary \<Rightarrow> pydict list \<times> rat \<times> rat \<Rightarrow> tier" where
  "with_costs d c =
     (case c of (costed, total_storage, total_egress) \<Rightarrow>
        \<lparr>s_count = s_count d, s_size = s_size d, s_total = s_total d, s_error = s_error d,
         s_items = Some costed,
         t_total_storage = total_storage, t_total_egress = total_egress\<rparr>)"

text \<open>\<^verbatim>\<open>d.get("items", [])\<close>.\<close>

definition get_items :: "summary \<Rightarrow> pydict list" where
  "get_items d = (case s_items d of Some xs \<Rightarrow> xs | None \<Rightarrow> [])"

definition no_summary :: summary where
  "no_summary = \<lparr>s_count = None, s_size = None, s_total = None, s_error = None, s_items = None\<rparr>"

record view =
  b2_configs :: tier
  b2_vms :: tier
  local_configs :: tier
  local_vms :: tier
  local_vms_dump :: tier

text \<open>What the handler reads from outside: the parsers, the two paths of the configuration,
  the file system, and the outcomes of the two remote listings.\<close>

record world =
  w_loads :: "string \<Rightarrow> error + rfile list"
  w_strftime :: "rat \<Rightarrow> string option"
  w_local_configs :: string
  w_local_vms :: string
  w_fs :: filesystem
  w_rclone_configs :: cmd_result
  w_rclone_vms :: cmd_result

text \<open>Sequencing of steps that may raise: the first exception ends the handler.\<close>

definition and_then :: "error + 'a \<Rightarrow> ('a \<Rightarrow> error + 'b) \<Rightarrow> error + 'b" where
  "and_then r f = (case r of Inl e \<Rightarrow> Inl e | Inr x \<Rightarrow> f x)"

text \<open>
  \<^verbatim>\<open>
  def api_backups():
      b2c = b2_list(..., b2_cfg.get("prefix_configs", "proxmox/configs"))
      b2v = b2_list(..., b2_cfg.get("prefix_vms", "proxmox/vms"))
      b2c_costed, b2c_storage, b2c_egress = cost_estimates(b2c.get("items", []))
      b2v_costed, b2v_storage, b2v_egress = cost_estimates(b2v.get("items", []))
      local_c = list_local(cfg_paths.get("local_configs", ...))
      local_v = list_local(cfg_paths.get("local_vms", ...))
      local_v_dump = list_local_recursive(["/var/lib/vz/dump", "/mnt/thinner/backups"], max_items=400)
      lc_costed, lc_storage, lc_egress = cost_estimates(local_c.get("items", []))
      lv_costed, lv_storage, lv_egress = cost_estimates(local_v.get("items", []))
      lvd_costed, lvd_storage, lvd_egress = cost_estimates(local_v_dump)
      return flask.jsonify({
          "b2_configs": {**b2c, "items": b2c_costed, "total_storage": ..., "total_egress": ...},
          "b2_vms": {**b2v, ...}, "local_configs": {**local_c, ...},
          "local_vms": {**local_v, ...},
          "local_vms_dump": {"items": lvd_costed, "total_storage": ..., "total_egress": ...}})
  \<close>
  The result is the value handed to \<^verbatim>\<open>flask.jsonify\<close>.
\<close>

definition api_backups :: "world \<Rightarrow> error + view" where
  "api_backups w =
     (let b2c = b2_list (w_loads w) (w_rclone_configs w) 200;
          b2v = b2_list (w_loads w) (w_rclone_vms w) 200
      in and_then (call_cost_estimates (get_items b2c)) (\<lambda>b2c_cost.
         and_then (call_cost_estimates (get_items b2v)) (\<lambda>b2v_cost.
         and_then (list_local (w_fs w) (w_local_configs w)) (\<lambda>local_c.
         and_then (list_local (w_fs w) (w_local_vms w)) (\<lambda>local_v.
         and_then (list_local_recursive (w_strftime w) (w_fs w)
                     [''/var/lib/vz/dump'', ''/mnt/thinner/backups''] 400) (\<lambda>local_v_dump.
         and_then (call_cost_estimates (get_items local_c)) (\<lambda>lc_cost.
         and_then (call_cost_estimates (get_items local_v)) (\<lambda>lv_cost.
         and_then (call_cost_estimates local_v_dump) (\<lambda>lvd_cost.
           Inr \<lparr>b2_configs = with_costs b2c b2c_cost,
                b2_vms = with_costs b2v b2v_cost,
                local_configs = with_costs local_c lc_cost,
                local_vms = with_costs local_v lv_cost,
                local_vms_dump = with_costs no_summary lvd_cost\<rparr>)))))))))"

text \<open>
  \<^verbatim>\<open>
  def api_status():
      data = {
          "local": {"configs": list_local(cfg_paths.get("local_configs", ...)),
                    "vms": list_local(cfg_paths.get("local_vms", ...))},
          "remote": {"configs": b2_stats(..., b2_cfg.get("prefix_configs", "proxmox/configs")),
                     "vms": b2_stats(..., b2_cfg.get("prefix_vms", "proxmox/vms"))},
      }
      return flask.jsonify(data)
  \<close>
\<close>

record status_view =
  st_local_configs :: summary
  st_local_vms :: summary
  st_remote_configs :: summary
  st_remote_vms :: summary

definition api_status :: "world \<Rightarrow> error + status_view" where
  "api_status w =
     and_then (list_local (w_fs w) (w_local_configs w)) (\<lambda>local_c.
     and_then (list_local (w_fs w) (w_local_vms w)) (\<lambda>local_v.
       Inr \<lparr>st_local_configs = local_c,
            st_local_vms = local_v,
            st_remote_configs = b2_stats (w_loads w) (w_rclone_configs w),
            st_remote_vms = b2_stats (w_loads w) (w_rclone_vms w)\<rparr>))"

section \<open>Notions used to state the properties\<close>

text \<open>
  How the first loop of \<^verbatim>\<open>recent_runs\<close> classifies one line, by the first marker of
  its \<^verbatim>\<open>if\<close>/\<^verbatim>\<open>elif\<close> chain that the line contains (\<open>None\<close> for a line it
  skips), and the entry it appends for a line that is classified.
\<close>

definition marker :: "string \<Rightarrow> note_kind option" where
  "marker line =
     (if contains ''Starting'' line then Some Start
      else if contains ''Done.'' line \<or> contains ''Deactivated successfully'' line then Some Done
      else if contains ''Failed to start'' line \<or> contains ''exit-code'' line then Some Fail
      else None)"

definition entry_of :: "string \<Rightarrow> entry" where
  "entry_of line =
     \<lparr>e_time = hd (py_split 1 line),
      e_note = (case marker line of Some k \<Rightarrow> k | None \<Rightarrow> Start),
      e_line = line\<rparr>"

text \<open>
  What \<^verbatim>\<open>list_local_recursive\<close> emits from one root: an entry is emitted when it is a
  file whose \<^verbatim>\<open>stat()\<close> and time rendering succeed; \<open>item_of\<close> is the dict appended for
  it; \<open>root_files\<close> are the emitted entries of a root in the order of the sorted walk.
\<close>

definition emitted :: "(rat \<Rightarrow> string option) \<Rightarrow> fsentry \<Rightarrow> bool" where
  "emitted strftime f = (f_is_file f \<and> f_stat f \<noteq> None \<and> strftime (f_mtime f) \<noteq> None)"

definition item_of :: "(rat \<Rightarrow> string option) \<Rightarrow> fsentry \<Rightarrow> pydict" where
  "item_of strftime f =
     recursive_item f (fst (the (f_stat f))) (the (strftime (f_mtime f)))"

definition root_files :: "(rat \<Rightarrow> string option) \<Rightarrow> filesystem \<Rightarrow> string \<Rightarrow> fsentry list" where
  "root_files strftime fs base =
     (if fs_exists fs base
      then filter (emitted strftime) (sorted_reverse mtime_key (fs_rglob fs base))
      else [])"

text \<open>
  Two concrete file systems: one on which no path exists, and one with two roots.
  Root \<^verbatim>\<open>/a\<close> holds two files, modified 2023-12-31 and 2024-01-01, and a directory; root
  \<^verbatim>\<open>/b\<close> holds one file, modified 2024-01-02.
\<close>

definition no_files :: filesystem where
  "no_files = \<lparr>fs_exists = (\<lambda>p. False), fs_glob = (\<lambda>p. []), fs_rglob = (\<lambda>p. [])\<rparr>"

definition two_roots :: filesystem where
  "two_roots =
     \<lparr>fs_exists = (\<lambda>p. p = ''/a'' \<or> p = ''/b''),
      fs_glob = (\<lambda>p. []),
      fs_rglob = (\<lambda>p.
        if p = ''/a''
        then [\<lparr>f_name = ''older.vma'', f_path = ''/a/older.vma'', f_is_file = True,
               f_stat = Some (30, 1703980800)\<rparr>,
              \<lparr>f_name = ''sub'', f_path = ''/a/sub'', f_is_file = False,
               f_stat = Some (4096, 1704240000)\<rparr>,
              \<lparr>f_name = ''old.vma'', f_path = ''/a/old.vma'', f_is_file = True,
               f_stat = Some (10, 1704067200)\<rparr>]
        else if p = ''/b''
        then [\<lparr>f_name = ''new.vma'', f_path = ''/b/new.vma'', f_is_file = True,
               f_stat = Some (20, 1704153600)\<rparr>]
        else [])\<rparr>"

text \<open>
  What \<^verbatim>\<open>cost_estimates\<close> computes for one dict: its size in GB, when the value under
  \<^verbatim>\<open>size\<close> is a number, and the copy that carries the two estimates.
\<close>

definition size_gb :: "pydict \<Rightarrow> rat option" where
  "size_gb d =
     (case truediv (dict_get d ''size'' (PInt 0)) (1024 * 1024 * 1024) of
        Inr q \<Rightarrow> Some q | Inl e \<Rightarrow> None)"

definition costed_copy :: "pydict \<Rightarrow> rat \<Rightarrow> pydict" where
  "costed_copy d g =
     dict_set (dict_set d ''est_storage'' (PFloat (g * storage_rate)))
       ''est_egress'' (PFloat (g * egress_rate))"

text \<open>A parser that reads one listing and rejects every other text.\<close>

definition loads_example :: "string \<Rightarrow> error + rfile list" where
  \<open>loads_example out =
     (if out = ''[{"Name":"pve.tar.gz","Size":1073741824,"ModTime":"2024-01-02T03:04:05Z"}]''
      then Inr [\<lparr>rf_name = Some ''pve.tar.gz'', rf_size = Some 1073741824,
                 rf_modtime = Some ''2024-01-02T03:04:05Z''\<rparr>]
      else Inl JSONDecodeError)\<close>

text \<open>
  The part of \<^verbatim>\<open>api_backups\<close> that reads the local file system: the three local tiers
  with their costs, or the exception that ends the handler.
\<close>

definition local_tiers :: "world \<Rightarrow> error + (tier \<times> tier \<times> tier)" where
  "local_tiers w =
     and_then (list_local (w_fs w) (w_local_configs w)) (\<lambda>local_c.
     and_then (list_local (w_fs w) (w_local_vms w)) (\<lambda>local_v.
     and_then (list_local_recursive (w_strftime w) (w_fs w)
                 [''/var/lib/vz/dump'', ''/mnt/thinner/backups''] 400) (\<lambda>local_v_dump.
     and_then (call_cost_estimates (get_items local_c)) (\<lambda>lc_cost.
     and_then (call_cost_estimates (get_items local_v)) (\<lambda>lv_cost.
     and_then (call_cost_estimates local_v_dump) (\<lambda>lvd_cost.
       Inr (with_costs local_c lc_cost, with_costs local_v lv_cost,
            with_costs no_summary lvd_cost)))))))"

text \<open>
  A world in which both remote listings succeed, the local directory of the configuration
  backups holds one archive, that of the VM backups does not exist, and the dump directory
  holds one dump.
\<close>

definition backup_fs :: filesystem where
  "backup_fs =
     \<lparr>fs_exists = (\<lambda>p. p = ''/var/backups/proxmox-b2/configs'' \<or> p = ''/var/lib/vz/dump''),
      fs_glob = (\<lambda>p.
        if p = ''/var/backups/proxmox-b2/configs''
        then [\<lparr>f_name = ''pve-config.tar.gz'',
               f_path = ''/var/backups/proxmox-b2/configs/pve-config.tar.gz'',
               f_is_file = True, f_stat = Some (2048, 1704067200)\<rparr>]
        else []),
      fs_rglob = (\<lambda>p.
        if p = ''/var/lib/vz/dump''
        then [\<lparr>f_name = ''vzdump-qemu-100.vma.zst'',
               f_path = ''/var/lib/vz/dump/vzdump-qemu-100.vma.zst'',
               f_is_file = True, f_stat = Some (3221225472, 1704153600)\<rparr>]
        else [])\<rparr>"

definition example_world :: world where
  \<open>example_world =
     \<lparr>w_loads = loads_example, w_strftime = strftime_gmtime,
      w_local_configs = ''/var/backups/proxmox-b2/configs'',
      w_local_vms = ''/var/backups/proxmox-b2/vms'',
      w_fs = backup_fs,
      w_rclone_configs =
        (0, ''[{"Name":"pve.tar.gz","Size":1073741824,"ModTime":"2024-01-02T03:04:05Z"}]'', ''''),
      w_rclone_vms =
        (0, ''[{"Name":"pve.tar.gz","Size":1073741824,"ModTime":"2024-01-02T03:04:05Z"}]'', '''')\<rparr>\<close>

section \<open>Properties of \<^verbatim>\<open>human_size\<close>\<close>

lemma human_loop_unit:
  "k < length us \<Longrightarrow> k = 0 \<or> 1024 ^ k \<le> num \<Longrightarrow> num < 1024 ^ Suc k
    \<Longrightarrow> human_loop num us = fmt_1f (num / 1024 ^ k) @ '' '' @ us ! k"
proof (induction us arbitrary: num k)
  case Nil
  then show ?case by simp
next
  case (Cons u us)
  show ?case
  proof (cases k)
    case 0
    with Cons.prems show ?thesis by simp
  next
    case (Suc j)
    with Cons.prems have big: "1024 * 1024 ^ j \<le> num" and small: "num < 1024 * (1024 * 1024 ^ j)"
      by simp_all
    have "(1::rat) \<le> 1024 ^ j" by simp
    with big have "1024 \<le> num" by linarith
    moreover have "j = 0 \<or> 1024 ^ j \<le> num / 1024" using big by (simp add: le_divide_eq)
    moreover have "num / 1024 < 1024 ^ Suc j" using small by (simp add: divide_less_eq)
    moreover have "j < length us" using Cons.prems Suc by simp
    ultimately show ?thesis using Cons.IH [of j "num / 1024"] Suc by simp
  qed
qed

lemma human_loop_last:
  "1024 ^ length us \<le> num \<Longrightarrow> human_loop num us = fmt_1f (num / 1024 ^ length us) @ '' PB''"
proof (induction us arbitrary: num)
  case Nil
  then show ?case by simp
next
  case (Cons u us)
  then have big: "1024 * 1024 ^ length us \<le> num" by simp
  have "(1::rat) \<le> 1024 ^ length us" by simp
  with big have "1024 \<le> num" by linarith
  moreover have "1024 ^ length us \<le> num / 1024" using big by (simp add: le_divide_eq)
  ultimately show ?case using Cons.IH [of "num / 1024"] by simp
qed

lemma show_nat_digit: "0 \<le> n \<Longrightarrow> n < 10 \<Longrightarrow> show_nat n = [digit_char n] \<and> digit_char n \<in> set ''0123456789''"
proof -
  assume a: "0 \<le> n" "n < 10"
  then have "nat n < length ''0123456789''" by simp
  then have "digit_char n \<in> set ''0123456789''" unfolding digit_char_def by (rule nth_mem)
  then show ?thesis using a by (simp add: show_nat.simps)
qed

lemma fmt_1f_one_decimal: "\<exists>w d. fmt_1f q = w @ ''.'' @ [d] \<and> d \<in> set ''0123456789''"
proof -
  define r where "r = round_half_even (\<bar>q\<bar> * 10)"
  have "0 \<le> r mod 10" "r mod 10 < 10" by simp_all
  then have d: "show_nat (r mod 10) = [digit_char (r mod 10)] \<and> digit_char (r mod 10) \<in> set ''0123456789''"
    by (rule show_nat_digit)
  have "fmt_1f q = ((if q < 0 then ''-'' else '''') @ show_nat (r div 10)) @ ''.'' @ [digit_char (r mod 10)]"
    using d by (simp add: fmt_1f_def r_def Let_def)
  with d show ?thesis by blast
qed

text \<open>
  Claim C6. \<^verbatim>\<open>human_size\<close> formats base-1024 with the units B, KB, MB, GB, TB, PB: the
  value is divided by 1024 until it is below 1024, at most five times, so that PB gets
  whatever is left; the number is rendered with one decimal place. In particular
  \<^verbatim>\<open>human_size(0) = "0.0 B"\<close>, \<^verbatim>\<open>human_size(1024) = "1.0 KB"\<close> and
  \<^verbatim>\<open>human_size(1024**4) = "1.0 TB"\<close>.
\<close>

theorem human_size_base_1024:
  "human_size 0 = ''0.0 B'' \<and> human_size 1024 = ''1.0 KB'' \<and> human_size (1024 ^ 4) = ''1.0 TB''
   \<and> (\<forall>num k. k < 5 \<and> (k = 0 \<or> 1024 ^ k \<le> num) \<and> num < 1024 ^ Suc k
         \<longrightarrow> human_size num = fmt_1f (num / 1024 ^ k) @ '' '' @ units ! k)
   \<and> (\<forall>num. 1024 ^ 5 \<le> num \<longrightarrow> human_size num = fmt_1f (num / 1024 ^ 5) @ '' PB'')
   \<and> (\<forall>q. \<exists>w d. fmt_1f q = w @ ''.'' @ [d] \<and> d \<in> set ''0123456789'')"
proof -
  have a: "human_size 0 = ''0.0 B''" by code_simp
  have b: "human_size 1024 = ''1.0 KB''" by code_simp
  have c: "human_size (1024 ^ 4) = ''1.0 TB''" by code_simp
  have len: "length units = 5" by (simp add: units_def)
  have d: "human_size num = fmt_1f (num / 1024 ^ k) @ '' '' @ units ! k"
    if "k < 5 \<and> (k = 0 \<or> 1024 ^ k \<le> num) \<and> num < 1024 ^ Suc k" for num k
    unfolding human_size_def using that len by (intro human_loop_unit) simp_all
  have e: "human_size num = fmt_1f (num / 1024 ^ 5) @ '' PB''" if "1024 ^ 5 \<le> num" for num
    unfolding human_size_def using that human_loop_last [of units num] len by simp
  show ?thesis using a b c d e fmt_1f_one_decimal by blast
qed

theorem human_size_base_1024_witness:
  "(1::nat) < 5 \<and> (1024::rat) ^ 1 \<le> 1536 \<and> (1536::rat) < 1024 ^ Suc 1
   \<and> human_size 1536 = ''1.5 KB''
   \<and> (1024::rat) ^ 5 \<le> 3 * 1024 ^ 5 \<and> human_size (3 * 1024 ^ 5) = ''3.0 PB''"
proof -
  have h1: "(1::nat) < 5 \<and> ((1::nat) = 0 \<or> (1024::rat) ^ 1 \<le> 1536) \<and> (1536::rat) < 1024 ^ Suc 1"
    by simp
  have h2: "(1024::rat) ^ 5 \<le> 3 * 1024 ^ 5" by simp
  from human_size_base_1024 h1 have "human_size 1536 = fmt_1f (1536 / 1024 ^ 1) @ '' '' @ units ! 1"
    by blast
  moreover have "fmt_1f (1536 / 1024 ^ 1) @ '' '' @ units ! 1 = ''1.5 KB''" by code_simp
  moreover from human_size_base_1024 h2 have "human_size (3 * 1024 ^ 5) = fmt_1f (3 * 1024 ^ 5 / 1024 ^ 5) @ '' PB''"
    by blast
  moreover have "fmt_1f (3 * 1024 ^ 5 / 1024 ^ 5) @ '' PB'' = ''3.0 PB''" by code_simp
  ultimately show ?thesis using h1 h2 by simp
qed

section \<open>Properties of \<^verbatim>\<open>recent_runs\<close>\<close>

text \<open>
  Claim C1. On the two lines \<^verbatim>\<open>"2024-01-01T00:00:05 Done."\<close> and
  \<^verbatim>\<open>"2024-01-01T00:00:00 Starting unit"\<close>, delivered in this order (newest first) by a
  command that succeeded, \<^verbatim>\<open>recent_runs\<close> returns exactly one run: status ok, duration
  five seconds, start time that of the \<^verbatim>\<open>Starting\<close> line.
\<close>

theorem recent_runs_two_lines:
  "recent_runs fromisoformat_seconds
     (0, [''2024-01-01T00:00:05 Done.'', ''2024-01-01T00:00:00 Starting unit'']) 6
   = Inr [\<lparr>r_time = ''2024-01-01T00:00:00'', r_status = Ok,
           r_duration = Seconds 5000000, r_note = ''Done.''\<rparr>]"
  by code_simp

text \<open>
  Claim C3 fails on the code. A line that holds a marker and no space makes the
  unpacking \<^verbatim>\<open>ts, msg = line.split(" ", 1)\<close> raise \<^verbatim>\<open>ValueError\<close>, and the whole call
  raises with it: the two well-formed lines around the line \<^verbatim>\<open>"Starting"\<close> yield no run.
\<close>

theorem recent_runs_raises_on_marker_without_space:
  "recent_runs fromisoformat_seconds
     (0, [''2024-01-01T00:00:00 Starting unit'', ''Starting'', ''2024-01-01T00:00:05 Done.'']) 6
   = Inl ValueError"
  by code_simp

lemma unpack_entry_Inr:
  "unpack_entry k line = Inr en \<Longrightarrow>
     en = \<lparr>e_time = hd (py_split 1 line), e_note = k, e_line = line\<rparr>"
  by (auto simp: unpack_entry_def split: list.splits)

lemma classify_entries:
  "classify ls acc = Inr es \<Longrightarrow>
     es = acc @ map entry_of (filter (\<lambda>l. marker l \<noteq> None) ls)"
proof (induction ls arbitrary: acc)
  case Nil
  then show ?case by simp
next
  case (Cons l ls)
  show ?case
  proof (cases "marker l")
    case None
    then have "classify (l # ls) acc = classify ls acc"
      by (simp add: marker_def split: if_splits)
    with Cons None show ?thesis by simp
  next
    case (Some k)
    then have step: "classify (l # ls) acc =
        (case unpack_entry k l of Inl e \<Rightarrow> Inl e | Inr en \<Rightarrow> classify ls (acc @ [en]))"
      by (auto simp: marker_def split: if_splits)
    with Cons.prems obtain en where en: "unpack_entry k l = Inr en"
      and rest: "classify ls (acc @ [en]) = Inr es"
      by (auto split: sum.splits)
    from unpack_entry_Inr [OF en] Some have "en = entry_of l" by (simp add: entry_of_def)
    with Cons.IH [OF rest] Some show ?thesis by simp
  qed
qed

lemma pair_loop_adjacent:
  "r \<in> set (pair_loop p n es start runs) \<Longrightarrow>
     r \<in> set runs
     \<or> (\<exists>xs s e ys. es = xs @ s # e # ys \<and> e_note s = Start \<and> e_note e \<noteq> Start
            \<and> r = make_run p s e)
     \<or> (\<exists>s e ys. start = Some s \<and> es = e # ys \<and> e_note e \<noteq> Start \<and> r = make_run p s e)"
proof (induction es arbitrary: start runs)
  case Nil
  then show ?case by simp
next
  case (Cons x es)
  show ?case
  proof (cases "e_note x = Start")
    case True
    with Cons.prems have "r \<in> set runs \<or> r \<in> set (pair_loop p n es (Some x) runs)"
      by (auto split: if_splits)
    then show ?thesis
    proof
      assume "r \<in> set (pair_loop p n es (Some x) runs)"
      from Cons.IH [OF this] consider "r \<in> set runs"
        | xs s e ys where "es = xs @ s # e # ys" "e_note s = Start" "e_note e \<noteq> Start"
            "r = make_run p s e"
        | e ys where "es = e # ys" "e_note e \<noteq> Start" "r = make_run p x e"
        by auto
      then show ?thesis
      proof cases
        case 1
        then show ?thesis by simp
      next
        case 2
        then have "x # es = (x # xs) @ s # e # ys" by simp
        with 2 show ?thesis by blast
      next
        case 3
        then have "x # es = [] @ x # e # ys" by simp
        with 3 True show ?thesis by blast
      qed
    qed simp
  next
    case False
    note notstart = False
    then have nk: "e_note x = Done \<or> e_note x = Fail" by (cases "e_note x") auto
    show ?thesis
    proof (cases start)
      case None
      with notstart Cons.prems have "r \<in> set runs \<or> r \<in> set (pair_loop p n es None runs)"
        by (auto split: if_splits)
      then show ?thesis
      proof
        assume "r \<in> set (pair_loop p n es None runs)"
        from Cons.IH [OF this] consider "r \<in> set runs"
          | xs s e ys where "es = xs @ s # e # ys" "e_note s = Start" "e_note e \<noteq> Start"
              "r = make_run p s e"
          by auto
        then show ?thesis
        proof cases
          case 1
          then show ?thesis by simp
        next
          case 2
          then have "x # es = (x # xs) @ s # e # ys" by simp
          with 2 show ?thesis by blast
        qed
      qed simp
    next
      case (Some s)
      with notstart nk Cons.prems
      have "r \<in> set runs \<or> r = make_run p s x
            \<or> r \<in> set (pair_loop p n es None (runs @ [make_run p s x]))"
        by (auto split: if_splits)
      then consider "r \<in> set runs" | "r = make_run p s x"
        | "r \<in> set (pair_loop p n es None (runs @ [make_run p s x]))" by blast
      then show ?thesis
      proof cases
        case 1
        then show ?thesis by simp
      next
        case 2
        with Some notstart show ?thesis by simp
      next
        case 3
        from Cons.IH [OF 3] consider "r \<in> set runs" | "r = make_run p s x"
          | xs s' e ys where "es = xs @ s' # e # ys" "e_note s' = Start" "e_note e \<noteq> Start"
              "r = make_run p s' e"
          by auto
        then show ?thesis
        proof cases
          case 1
          then show ?thesis by simp
        next
          case 2
          with Some notstart show ?thesis by simp
        next
          case 3
          then have "x # es = (x # xs) @ s' # e # ys" by simp
          with 3 show ?thesis by blast
        qed
      qed
    qed
  qed
qed

lemma map_filter_adjacent:
  "map f (filter P zs) = xs @ a # b # ys \<Longrightarrow>
     \<exists>pre u mid v post. zs = pre @ u # mid @ v # post \<and> P u \<and> P v \<and> f u = a \<and> f v = b
        \<and> list_all (\<lambda>m. \<not> P m) mid"
proof (induction zs arbitrary: xs)
  case Nil
  then show ?case by simp
next
  case (Cons z zs)
  show ?case
  proof (cases "P z")
    case False
    with Cons.prems have "map f (filter P zs) = xs @ a # b # ys" by simp
    from Cons.IH [OF this] obtain pre u mid v post where
      "zs = pre @ u # mid @ v # post" "P u" "P v" "f u = a" "f v = b" "list_all (\<lambda>m. \<not> P m) mid"
      by blast
    then have "z # zs = (z # pre) @ u # mid @ v # post" by simp
    with \<open>P u\<close> \<open>P v\<close> \<open>f u = a\<close> \<open>f v = b\<close> \<open>list_all (\<lambda>m. \<not> P m) mid\<close> show ?thesis by blast
  next
    case True
    show ?thesis
    proof (cases xs)
      case (Cons x xs')
      with True Cons.prems have "map f (filter P zs) = xs' @ a # b # ys" by simp
      from Cons.IH [OF this] obtain pre u mid v post where
        "zs = pre @ u # mid @ v # post" "P u" "P v" "f u = a" "f v = b" "list_all (\<lambda>m. \<not> P m) mid"
        by blast
      then have "z # zs = (z # pre) @ u # mid @ v # post" by simp
      with \<open>P u\<close> \<open>P v\<close> \<open>f u = a\<close> \<open>f v = b\<close> \<open>list_all (\<lambda>m. \<not> P m) mid\<close> show ?thesis by blast
    next
      case Nil
      with True Cons.prems have za: "f z = a" and rest: "map f (filter P zs) = b # ys" by simp_all
      from rest obtain v fs where fv: "filter P zs = v # fs" "f v = b" by (cases "filter P zs") auto
      from fv(1) obtain mid post where "zs = mid @ v # post" "\<forall>m\<in>set mid. \<not> P m" "P v"
        by (auto simp: filter_eq_Cons_iff)
      then have "z # zs = [] @ z # mid @ v # post" "list_all (\<lambda>m. \<not> P m) mid"
        by (simp_all add: list_all_iff)
      with True za fv(2) \<open>P v\<close> show ?thesis by blast
    qed
  qed
qed

lemma pair_duration_NA:
  "(pair_duration p s e = NA)
     = (p s = None \<or> p e = None \<or> (\<exists>a b. p s = Some a \<and> p e = Some b \<and> dt_sub b a = None))"
  by (auto simp: pair_duration_def split: option.splits)

lemma pair_duration_same_offset:
  "p s = Some a \<Longrightarrow> p e = Some b \<Longrightarrow> dt_utcoffset a = dt_utcoffset b \<Longrightarrow>
     pair_duration p s e = Seconds (dt_micros b - dt_micros a)"
  by (auto simp: pair_duration_def dt_sub_def split: option.splits)

lemma entry_of_note:
  "marker l \<noteq> None \<Longrightarrow> (e_note (entry_of l) = k) = (marker l = Some k)"
  by (auto simp: entry_of_def)

lemma recent_runs_pairs:
  assumes "recent_runs p (code, lines) n = Inr runs" and "r \<in> set runs"
  shows "\<exists>before e mid s after. lines = before @ e # mid @ s # after
           \<and> marker s = Some Start \<and> (marker e = Some Done \<or> marker e = Some Fail)
           \<and> list_all (\<lambda>m. marker m = None) mid
           \<and> r = make_run p (entry_of s) (entry_of e)"
proof (cases "code = 0")
  case False
  with assms show ?thesis by (simp add: recent_runs_def)
next
  case True
  with assms obtain es where es: "classify (rev lines) [] = Inr es"
    and r: "r \<in> set (pair_loop p n es None [])"
    by (auto simp: recent_runs_def split: sum.splits)
  from classify_entries [OF es]
  have es_eq: "es = map entry_of (filter (\<lambda>l. marker l \<noteq> None) (rev lines))" by simp
  from pair_loop_adjacent [OF r] obtain xs s' e' ys where
    adj: "es = xs @ s' # e' # ys" and s': "e_note s' = Start" and e': "e_note e' \<noteq> Start"
    and mk: "r = make_run p s' e'" by auto
  from adj es_eq have "map entry_of (filter (\<lambda>l. marker l \<noteq> None) (rev lines)) = xs @ s' # e' # ys"
    by simp
  from map_filter_adjacent [OF this] obtain pre u mid v post where
    split: "rev lines = pre @ u # mid @ v # post"
    and u: "marker u \<noteq> None" "entry_of u = s'"
    and v: "marker v \<noteq> None" "entry_of v = e'"
    and mid: "list_all (\<lambda>m. \<not> marker m \<noteq> None) mid"
    by blast
  from split have "rev (rev lines) = rev (pre @ u # mid @ v # post)" by simp
  then have lines: "lines = rev post @ v # rev mid @ u # rev pre" by simp
  from s' u have mu: "marker u = Some Start" using entry_of_note [of u Start] by simp
  from e' v have "marker v \<noteq> Some Start" using entry_of_note [of v Start] by simp
  with v(1) have mv: "marker v = Some Done \<or> marker v = Some Fail"
    by (cases "marker v") (auto intro: note_kind.exhaust)
  from mid have mid': "list_all (\<lambda>m. marker m = None) (rev mid)" by (simp add: list_all_iff)
  from mk u(2) v(2) have "r = make_run p (entry_of u) (entry_of v)" by simp
  with lines mu mv mid' show ?thesis by blast
qed

text \<open>
  Claim C2, amended. Every run that \<^verbatim>\<open>recent_runs\<close> returns pairs a start line of
  the batch with a terminal line of the batch: the terminal line was delivered before the
  start line, and no line between the two carries a marker. The run's start time is the
  leading token of the start line; its status and note are those of the terminal line.
  Its duration is unknown exactly when one of the two leading tokens does not parse or the
  two values cannot be subtracted (one naive, one aware). When both parse with the same UTC
  offset it is the difference terminal minus start, hence non-negative exactly when the
  start is not later than the terminal timestamp. The code makes no such comparison.
\<close>

theorem recent_runs_duration_is_difference:
  "recent_runs p (code, lines) n = Inr runs \<and> r \<in> set runs \<longrightarrow>
     (\<exists>before e mid s after.
        lines = before @ e # mid @ s # after
        \<and> marker s = Some Start
        \<and> (marker e = Some Done \<or> marker e = Some Fail)
        \<and> list_all (\<lambda>m. marker m = None) mid
        \<and> r_time r = hd (py_split 1 s)
        \<and> r_status r = (if marker e = Some Done then Ok else Failed)
        \<and> r_note r = take 80 (last (py_split 2 e))
        \<and> ((r_duration r = NA)
             = (p (hd (py_split 1 s)) = None \<or> p (hd (py_split 1 e)) = None
                \<or> (\<exists>a b. p (hd (py_split 1 s)) = Some a \<and> p (hd (py_split 1 e)) = Some b
                      \<and> dt_sub b a = None)))
        \<and> (\<forall>a b. p (hd (py_split 1 s)) = Some a \<and> p (hd (py_split 1 e)) = Some b
                \<and> dt_utcoffset a = dt_utcoffset b \<longrightarrow>
              r_duration r = Seconds (dt_micros b - dt_micros a)
              \<and> (0 \<le> dt_micros b - dt_micros a) = (dt_micros a \<le> dt_micros b)))"
proof
  assume "recent_runs p (code, lines) n = Inr runs \<and> r \<in> set runs"
  then obtain before e mid s after where
    lines: "lines = before @ e # mid @ s # after"
    and ms: "marker s = Some Start" and me: "marker e = Some Done \<or> marker e = Some Fail"
    and mid: "list_all (\<lambda>m. marker m = None) mid"
    and mk: "r = make_run p (entry_of s) (entry_of e)"
    using recent_runs_pairs by blast
  let ?ts = "hd (py_split 1 s)" and ?te = "hd (py_split 1 e)"
  from mk have t: "r_time r = ?ts" by (simp add: make_run_def entry_of_def)
  from mk me have st: "r_status r = (if marker e = Some Done then Ok else Failed)"
    by (auto simp: make_run_def entry_of_def)
  from mk have nt: "r_note r = take 80 (last (py_split 2 e))"
    by (simp add: make_run_def entry_of_def)
  from mk have d: "r_duration r = pair_duration p ?ts ?te"
    by (simp add: make_run_def entry_of_def)
  have na: "(r_duration r = NA)
             = (p ?ts = None \<or> p ?te = None
                \<or> (\<exists>a b. p ?ts = Some a \<and> p ?te = Some b \<and> dt_sub b a = None))"
    unfolding d by (rule pair_duration_NA)
  have diff: "\<forall>a b. p ?ts = Some a \<and> p ?te = Some b \<and> dt_utcoffset a = dt_utcoffset b \<longrightarrow>
              r_duration r = Seconds (dt_micros b - dt_micros a)
              \<and> (0 \<le> dt_micros b - dt_micros a) = (dt_micros a \<le> dt_micros b)"
    unfolding d using pair_duration_same_offset [of p ?ts _ ?te] by auto
  from lines ms me mid t st nt na diff
  show "\<exists>before e mid s after.
        lines = before @ e # mid @ s # after
        \<and> marker s = Some Start
        \<and> (marker e = Some Done \<or> marker e = Some Fail)
        \<and> list_all (\<lambda>m. marker m = None) mid
        \<and> r_time r = hd (py_split 1 s)
        \<and> r_status r = (if marker e = Some Done then Ok else Failed)
        \<and> r_note r = take 80 (last (py_split 2 e))
        \<and> ((r_duration r = NA)
             = (p (hd (py_split 1 s)) = None \<or> p (hd (py_split 1 e)) = None
                \<or> (\<exists>a b. p (hd (py_split 1 s)) = Some a \<and> p (hd (py_split 1 e)) = Some b
                      \<and> dt_sub b a = None)))
        \<and> (\<forall>a b. p (hd (py_split 1 s)) = Some a \<and> p (hd (py_split 1 e)) = Some b
                \<and> dt_utcoffset a = dt_utcoffset b \<longrightarrow>
              r_duration r = Seconds (dt_micros b - dt_micros a)
              \<and> (0 \<le> dt_micros b - dt_micros a) = (dt_micros a \<le> dt_micros b))"
    by blast
qed

theorem recent_runs_duration_is_difference_witness:
  "recent_runs fromisoformat_seconds
     (0, [''2024-03-01T02:00:07 unit: Failed with result exit-code'',
          ''2024-03-01T02:00:03 backup: uploading'',
          ''2024-03-01T02:00:00 Starting backup'',
          ''2024-03-01T01:59:59 rotating logs'']) 6
   = Inr [\<lparr>r_time = ''2024-03-01T02:00:00'', r_status = Failed,
           r_duration = Seconds 7000000, r_note = ''Failed with result exit-code''\<rparr>]
   \<and> (\<exists>before e mid s after.
        [''2024-03-01T02:00:07 unit: Failed with result exit-code'',
         ''2024-03-01T02:00:03 backup: uploading'',
         ''2024-03-01T02:00:00 Starting backup'',
         ''2024-03-01T01:59:59 rotating logs''] = before @ e # mid @ s # after
        \<and> marker s = Some Start
        \<and> (marker e = Some Done \<or> marker e = Some Fail)
        \<and> list_all (\<lambda>m. marker m = None) mid
        \<and> ''2024-03-01T02:00:00'' = hd (py_split 1 s)
        \<and> Failed = (if marker e = Some Done then Ok else Failed)
        \<and> ''Failed with result exit-code'' = take 80 (last (py_split 2 e))
        \<and> ((Seconds 7000000 = NA)
             = (fromisoformat_seconds (hd (py_split 1 s)) = None
                \<or> fromisoformat_seconds (hd (py_split 1 e)) = None
                \<or> (\<exists>a b. fromisoformat_seconds (hd (py_split 1 s)) = Some a
                      \<and> fromisoformat_seconds (hd (py_split 1 e)) = Some b
                      \<and> dt_sub b a = None)))
        \<and> (\<forall>a b. fromisoformat_seconds (hd (py_split 1 s)) = Some a
                \<and> fromisoformat_seconds (hd (py_split 1 e)) = Some b
                \<and> dt_utcoffset a = dt_utcoffset b \<longrightarrow>
              Seconds 7000000 = Seconds (dt_micros b - dt_micros a)
              \<and> (0 \<le> dt_micros b - dt_micros a) = (dt_micros a \<le> dt_micros b)))
   \<and> marker ''2024-03-01T02:00:00 Starting backup'' = Some Start
   \<and> marker ''2024-03-01T02:00:07 unit: Failed with result exit-code'' = Some Fail
   \<and> marker ''2024-03-01T02:00:03 backup: uploading'' = None
   \<and> fromisoformat_seconds ''2024-03-01T02:00:00''
       = Some \<lparr>dt_micros = 63844855200000000, dt_utcoffset = None\<rparr>
   \<and> fromisoformat_seconds ''2024-03-01T02:00:07''
       = Some \<lparr>dt_micros = 63844855207000000, dt_utcoffset = None\<rparr>"
proof -
  let ?L = "[''2024-03-01T02:00:07 unit: Failed with result exit-code'',
             ''2024-03-01T02:00:03 backup: uploading'',
             ''2024-03-01T02:00:00 Starting backup'',
             ''2024-03-01T01:59:59 rotating logs'']"
  let ?R = "\<lparr>r_time = ''2024-03-01T02:00:00'', r_status = Failed,
             r_duration = Seconds 7000000, r_note = ''Failed with result exit-code''\<rparr>"
  have ev: "recent_runs fromisoformat_seconds (0, ?L) 6 = Inr [?R]" by code_simp
  have mem: "?R \<in> set [?R]" by (rule list.set_intros(1))
  have m1: "marker ''2024-03-01T02:00:00 Starting backup'' = Some Start" by code_simp
  have m2: "marker ''2024-03-01T02:00:07 unit: Failed with result exit-code'' = Some Fail"
    by code_simp
  have m3: "marker ''2024-03-01T02:00:03 backup: uploading'' = None" by code_simp
  have a: "fromisoformat_seconds ''2024-03-01T02:00:00''
       = Some \<lparr>dt_micros = 63844855200000000, dt_utcoffset = None\<rparr>" by code_simp
  have b: "fromisoformat_seconds ''2024-03-01T02:00:07''
       = Some \<lparr>dt_micros = 63844855207000000, dt_utcoffset = None\<rparr>" by code_simp
  note inst = recent_runs_duration_is_difference
                [of fromisoformat_seconds 0 ?L 6 "[?R]" ?R, rule_format, OF conjI [OF ev mem]]
  have sel: "r_time ?R = ''2024-03-01T02:00:00''" "r_status ?R = Failed"
    "r_note ?R = ''Failed with result exit-code''" "r_duration ?R = Seconds 7000000"
    by (simp_all only: run.select_convs)
  note ex = inst [unfolded sel]
  from ev ex m1 m2 m3 a b show ?thesis by (intro conjI)
qed

text \<open>
  Claim C2 as stated fails: the terminal line of one run followed by the \<^verbatim>\<open>Starting\<close>
  line of the next is paired into a run whose timestamps both parse, whose start is five
  seconds after its terminal timestamp, and whose duration is minus five seconds.
\<close>

theorem recent_runs_negative_duration:
  "recent_runs fromisoformat_seconds
     (0, [''2024-01-01T00:00:05 Done.'', ''2024-01-01T00:00:10 Starting unit'']) 6
   = Inr [\<lparr>r_time = ''2024-01-01T00:00:10'', r_status = Ok,
           r_duration = Seconds (- 5000000), r_note = ''Done.''\<rparr>]
   \<and> fromisoformat_seconds ''2024-01-01T00:00:10''
       = Some \<lparr>dt_micros = 63839664010000000, dt_utcoffset = None\<rparr>
   \<and> fromisoformat_seconds ''2024-01-01T00:00:05''
       = Some \<lparr>dt_micros = 63839664005000000, dt_utcoffset = None\<rparr>"
  by code_simp

section \<open>Properties of the local tier\<close>

text \<open>
  Claim C9. For a path that does not exist, \<^verbatim>\<open>list_local\<close> returns exactly
  \<^verbatim>\<open>{"count": 0, "size": 0, "items": []}\<close>: these three keys and no other, and no
  exception.
\<close>

theorem list_local_missing_directory:
  "\<not> fs_exists fs path \<Longrightarrow>
     list_local fs path
       = Inr \<lparr>s_count = Some 0, s_size = Some 0, s_total = None, s_error = None,
              s_items = Some []\<rparr>"
  by (simp add: list_local_def)

theorem list_local_missing_directory_witness:
  "\<not> fs_exists no_files ''/var/backups/proxmox-b2/configs''
   \<and> list_local no_files ''/var/backups/proxmox-b2/configs''
       = Inr \<lparr>s_count = Some 0, s_size = Some 0, s_total = None, s_error = None,
              s_items = Some []\<rparr>"
proof -
  have h: "\<not> fs_exists no_files ''/var/backups/proxmox-b2/configs''"
    by (simp add: no_files_def)
  from h list_local_missing_directory [OF h] show ?thesis by (rule conjI)
qed

lemma recursive_files_step:
  "emitted strftime f \<Longrightarrow>
     recursive_files strftime n (f # fs) items =
       (if n \<le> int (length items) + 1 then (items @ [item_of strftime f], True)
        else recursive_files strftime n fs (items @ [item_of strftime f]))"
  by (auto simp: emitted_def item_of_def f_mtime_def Let_def split: option.splits)

lemma recursive_files_skip:
  "\<not> emitted strftime f \<Longrightarrow>
     recursive_files strftime n (f # fs) items = recursive_files strftime n fs items"
  by (auto simp: emitted_def f_mtime_def split: option.splits)

lemma recursive_files_char:
  "int (length items) < n \<Longrightarrow>
     recursive_files strftime n fs items =
       (items @ map (item_of strftime) (take (nat n - length items) (filter (emitted strftime) fs)),
        nat n - length items \<le> length (filter (emitted strftime) fs))"
proof (induction fs arbitrary: items)
  case Nil
  then show ?case by simp
next
  case (Cons f fs)
  show ?case
  proof (cases "emitted strftime f")
    case False
    with Cons show ?thesis by (simp add: recursive_files_skip del: recursive_files.simps)
  next
    case True
    note em = True
    show ?thesis
    proof (cases "n \<le> int (length items) + 1")
      case True
      with Cons.prems have "nat n - length items = 1" by linarith
      with em True show ?thesis
        by (simp add: recursive_files_step del: recursive_files.simps)
    next
      case False
      then have lt: "int (length (items @ [item_of strftime f])) < n" by simp
      from False Cons.prems obtain k where k: "nat n - length items = Suc k"
        "nat n - Suc (length items) = k"
        by (cases "nat n - length items") auto
      from em False show ?thesis
        by (simp add: recursive_files_step Cons.IH [OF lt] k del: recursive_files.simps)
    qed
  qed
qed

lemma recursive_roots_char:
  "int (length items) < n \<Longrightarrow> recursive_roots strftime fs n paths items = Inr r \<Longrightarrow>
     r = items @ map (item_of strftime)
           (take (nat n - length items) (concat (map (root_files strftime fs) paths)))"
proof (induction paths arbitrary: items)
  case Nil
  then show ?case by simp
next
  case (Cons base paths)
  show ?case
  proof (cases "fs_exists fs base")
    case False
    with Cons show ?thesis by (simp add: root_files_def)
  next
    case True
    let ?files = "sorted_reverse mtime_key (fs_rglob fs base)"
    let ?em = "filter (emitted strftime) ?files"
    let ?k = "nat n - length items"
    from Cons.prems(2) True have sorted: "sorted_by_mtime (fs_rglob fs base) = Inr ?files"
      by (auto simp: sorted_by_mtime_def split: if_splits)
    have rf: "root_files strftime fs base = ?em" using True by (simp add: root_files_def)
    note char = recursive_files_char [OF Cons.prems(1), of strftime ?files]
    show ?thesis
    proof (cases "?k \<le> length ?em")
      case True
      with Cons.prems(2) \<open>fs_exists fs base\<close> sorted char
      have "r = items @ map (item_of strftime) (take ?k ?em)" by simp
      with True rf show ?thesis by simp
    next
      case False
      let ?items' = "items @ map (item_of strftime) ?em"
      from False Cons.prems(2) \<open>fs_exists fs base\<close> sorted char
      have rec: "recursive_roots strftime fs n paths ?items' = Inr r" by simp
      from False Cons.prems(1) have lt: "int (length ?items') < n" by simp
      have k': "nat n - length ?items' = ?k - length ?em" by simp
      from Cons.IH [OF lt rec] False rf k' show ?thesis by simp
    qed
  qed
qed

lemma recursive_roots_missing:
  "list_all (\<lambda>p. \<not> fs_exists fs p) paths \<Longrightarrow>
     recursive_roots strftime fs n paths items = Inr items"
  by (induction paths) simp_all

lemma sorted_reverse_descending:
  "sorted_wrt (\<lambda>a b. key b \<le> key a) (sorted_reverse key xs)"
proof -
  have "sorted (map key (sort_key key (rev xs)))" by simp
  then have "sorted_wrt (\<lambda>a b. key a \<le> key b) (sort_key key (rev xs))"
    by (simp add: sorted_wrt_map)
  then show ?thesis by (simp add: sorted_reverse_def sorted_wrt_rev)
qed

lemma root_files_descending:
  "sorted_wrt (\<lambda>a b. f_mtime b \<le> f_mtime a) (root_files strftime fs p)"
proof (cases "fs_exists fs p")
  case False
  then show ?thesis by (simp add: root_files_def)
next
  case True
  let ?xs = "filter (emitted strftime) (sorted_reverse mtime_key (fs_rglob fs p))"
  have "sorted_wrt (\<lambda>a b. mtime_key b \<le> mtime_key a) ?xs"
    by (intro sorted_wrt_filter sorted_reverse_descending)
  moreover have "mtime_key x = f_mtime x" if "x \<in> set ?xs" for x
    using that by (simp add: mtime_key_def emitted_def)
  ultimately have "sorted_wrt (\<lambda>a b. f_mtime b \<le> f_mtime a) ?xs"
    by (auto elim!: sorted_wrt_mono_rel [rotated])
  with True show ?thesis by (simp add: root_files_def)
qed

text \<open>
  Claim C4, amended. When no root exists, \<^verbatim>\<open>list_local_recursive\<close> returns the empty
  list. For a limit of at least one, whatever it returns has at most \<open>max_items\<close>
  entries: they are the first \<open>max_items\<close> of the files of the roots that exist, root
  after root in the order the roots are given, and the files of one root are ordered
  newest-modified first.
\<close>

theorem list_local_recursive_per_root:
  "(list_all (\<lambda>p. \<not> fs_exists fs p) paths \<longrightarrow>
      list_local_recursive strftime fs paths max_items = Inr [])
   \<and> (\<forall>items. 1 \<le> max_items \<and> list_local_recursive strftime fs paths max_items = Inr items \<longrightarrow>
         int (length items) \<le> max_items
         \<and> items = map (item_of strftime)
                     (take (nat max_items) (concat (map (root_files strftime fs) paths))))
   \<and> (\<forall>p. sorted_wrt (\<lambda>a b. f_mtime b \<le> f_mtime a) (root_files strftime fs p))"
proof (intro conjI allI impI)
  assume "list_all (\<lambda>p. \<not> fs_exists fs p) paths"
  then show "list_local_recursive strftime fs paths max_items = Inr []"
    by (simp add: list_local_recursive_def recursive_roots_missing)
next
  fix items
  assume a: "1 \<le> max_items \<and> list_local_recursive strftime fs paths max_items = Inr items"
  then have "int (length ([]::pydict list)) < max_items" by simp
  from recursive_roots_char [OF this] a
  show eq: "items = map (item_of strftime)
                     (take (nat max_items) (concat (map (root_files strftime fs) paths)))"
    by (simp add: list_local_recursive_def)
  have "length items \<le> nat max_items" by (subst eq) simp
  with a show "int (length items) \<le> max_items" by linarith
next
  fix p
  show "sorted_wrt (\<lambda>a b. f_mtime b \<le> f_mtime a) (root_files strftime fs p)"
    by (rule root_files_descending)
qed

theorem list_local_recursive_per_root_witness:
  "list_all (\<lambda>p. \<not> fs_exists two_roots p) [''/mnt/thinner/backups'']
   \<and> list_local_recursive strftime_gmtime two_roots [''/mnt/thinner/backups''] 200 = Inr []
   \<and> (1::int) \<le> 2
   \<and> list_local_recursive strftime_gmtime two_roots [''/a'', ''/b''] 2
       = Inr [[(''name'', PStr ''old.vma''), (''path'', PStr ''/a/old.vma''), (''size'', PInt 10),
               (''size_h'', PStr ''10.0 B''), (''time'', PStr ''2024-01-01 00:00:00'')],
              [(''name'', PStr ''older.vma''), (''path'', PStr ''/a/older.vma''), (''size'', PInt 30),
               (''size_h'', PStr ''30.0 B''), (''time'', PStr ''2023-12-31 00:00:00'')]]
   \<and> int (length
         [[(''name'', PStr ''old.vma''), (''path'', PStr ''/a/old.vma''), (''size'', PInt 10),
           (''size_h'', PStr ''10.0 B''), (''time'', PStr ''2024-01-01 00:00:00'')],
          [(''name'', PStr ''older.vma''), (''path'', PStr ''/a/older.vma''), (''size'', PInt 30),
           (''size_h'', PStr ''30.0 B''), (''time'', PStr ''2023-12-31 00:00:00'')]]) \<le> 2
   \<and> [[(''name'', PStr ''old.vma''), (''path'', PStr ''/a/old.vma''), (''size'', PInt 10),
        (''size_h'', PStr ''10.0 B''), (''time'', PStr ''2024-01-01 00:00:00'')],
       [(''name'', PStr ''older.vma''), (''path'', PStr ''/a/older.vma''), (''size'', PInt 30),
        (''size_h'', PStr ''30.0 B''), (''time'', PStr ''2023-12-31 00:00:00'')]]
      = map (item_of strftime_gmtime)
          (take (nat 2) (concat (map (root_files strftime_gmtime two_roots) [''/a'', ''/b''])))"
proof -
  let ?I = "[[(''name'', PStr ''old.vma''), (''path'', PStr ''/a/old.vma''), (''size'', PInt 10),
               (''size_h'', PStr ''10.0 B''), (''time'', PStr ''2024-01-01 00:00:00'')],
              [(''name'', PStr ''older.vma''), (''path'', PStr ''/a/older.vma''), (''size'', PInt 30),
               (''size_h'', PStr ''30.0 B''), (''time'', PStr ''2023-12-31 00:00:00'')]]"
  have h1: "list_all (\<lambda>p. \<not> fs_exists two_roots p) [''/mnt/thinner/backups'']"
    by (simp add: two_roots_def)
  have h2: "(1::int) \<le> 2" by simp
  have ev: "list_local_recursive strftime_gmtime two_roots [''/a'', ''/b''] 2 = Inr ?I"
    by code_simp
  note a = list_local_recursive_per_root
             [of two_roots "[''/mnt/thinner/backups'']" strftime_gmtime 200, THEN conjunct1, rule_format, OF h1]
  note b = list_local_recursive_per_root
             [of two_roots "[''/a'', ''/b'']" strftime_gmtime 2, THEN conjunct2, THEN conjunct1,
              rule_format, OF conjI [OF h2 ev]]
  note b1 = b [THEN conjunct1] and b2 = b [THEN conjunct2]
  from h1 a h2 ev b1 b2 show ?thesis by (intro conjI)
qed

text \<open>
  Claim C4 as stated fails. With two roots the result is not newest-first across the
  roots: the files of \<^verbatim>\<open>/a\<close>, modified 2024-01-01 and 2023-12-31, precede the file of
  \<^verbatim>\<open>/b\<close>, modified 2024-01-02. And with the limit 0 the result has one entry, because the
  limit is tested only after an entry has been appended.
\<close>

theorem list_local_recursive_across_roots:
  "list_local_recursive strftime_gmtime two_roots [''/a'', ''/b''] 200
     = Inr [[(''name'', PStr ''old.vma''), (''path'', PStr ''/a/old.vma''), (''size'', PInt 10),
             (''size_h'', PStr ''10.0 B''), (''time'', PStr ''2024-01-01 00:00:00'')],
            [(''name'', PStr ''older.vma''), (''path'', PStr ''/a/older.vma''), (''size'', PInt 30),
             (''size_h'', PStr ''30.0 B''), (''time'', PStr ''2023-12-31 00:00:00'')],
            [(''name'', PStr ''new.vma''), (''path'', PStr ''/b/new.vma''), (''size'', PInt 20),
             (''size_h'', PStr ''20.0 B''), (''time'', PStr ''2024-01-02 00:00:00'')]]
   \<and> list_local_recursive strftime_gmtime two_roots [''/b''] 0
     = Inr [[(''name'', PStr ''new.vma''), (''path'', PStr ''/b/new.vma''), (''size'', PInt 20),
             (''size_h'', PStr ''20.0 B''), (''time'', PStr ''2024-01-02 00:00:00'')]]"
  by code_simp

section \<open>Properties of the remote tier\<close>

text \<open>
  Claim C8. When the listing command ends with a non-zero result code, \<^verbatim>\<open>b2_stats\<close>
  returns count 0 and size 0 and \<^verbatim>\<open>b2_list\<close> returns the empty item list, each with the
  error text \<^verbatim>\<open>err or out\<close> of the command under the key \<^verbatim>\<open>error\<close>. Both are plain
  values: neither function has a path on which it raises.
\<close>

theorem remote_failure_is_empty_with_error:
  "code \<noteq> 0 \<Longrightarrow>
     b2_stats loads (code, out, err)
       = \<lparr>s_count = Some 0, s_size = Some 0, s_total = None,
          s_error = Some (Text (py_or err out)), s_items = None\<rparr>
     \<and> b2_list loads (code, out, err) max_items
       = \<lparr>s_count = None, s_size = None, s_total = None,
          s_error = Some (Text (py_or err out)), s_items = Some []\<rparr>"
  by (simp add: b2_stats_def b2_list_def)

theorem remote_failure_is_empty_with_error_witness:
  "(124::int) \<noteq> 0
   \<and> b2_stats loads_example (124, '''', ''timeout after 15s'')
       = \<lparr>s_count = Some 0, s_size = Some 0, s_total = None,
          s_error = Some (Text ''timeout after 15s''), s_items = None\<rparr>
   \<and> b2_list loads_example (124, '''', ''timeout after 15s'') 200
       = \<lparr>s_count = None, s_size = None, s_total = None,
          s_error = Some (Text ''timeout after 15s''), s_items = Some []\<rparr>"
proof -
  have h: "(124::int) \<noteq> 0" by simp
  have t: "py_or ''timeout after 15s'' '''' = ''timeout after 15s''" by (simp add: py_or_def)
  from remote_failure_is_empty_with_error [OF h, of loads_example "''''" "''timeout after 15s''" 200]
  show ?thesis unfolding t using h by simp
qed

section \<open>Properties of \<^verbatim>\<open>cost_estimates\<close>\<close>

lemma cost_loop_frame:
  "cost_loop h items est ts te = (h', r) \<Longrightarrow> length h \<le> length h' \<and> take (length h) h' = h"
proof (induction items arbitrary: h est ts te)
  case Nil
  then show ?case by simp
next
  case (Cons it items)
  show ?case
  proof (cases "length h \<le> it")
    case True
    with Cons.prems show ?thesis by simp
  next
    case False
    show ?thesis
    proof (cases "truediv (dict_get (h ! it) ''size'' (PInt 0)) (1024 * 1024 * 1024)")
      case (Inl e)
      with False Cons.prems show ?thesis by simp
    next
      case (Inr g)
      let ?h3 = "h @ [costed_copy (h ! it) g]"
      from False Inr Cons.prems
      have "cost_loop ?h3 items (est @ [length h]) (ts + g * storage_rate) (te + g * egress_rate) = (h', r)"
        by (simp add: Let_def costed_copy_def)
      from Cons.IH [OF this] have "length ?h3 \<le> length h'" "take (length ?h3) h' = ?h3" by simp_all
      then have "length h \<le> length h'" "take (length h) (take (length ?h3) h') = h" by simp_all
      then show ?thesis by (simp add: min_def)
    qed
  qed
qed

lemma cost_loop_fresh:
  "cost_loop h items est ts te = (h', Inr (est', ts', te')) \<Longrightarrow>
     \<exists>new. est' = est @ new \<and> list_all (\<lambda>a. length h \<le> a \<and> a < length h') new"
proof (induction items arbitrary: h est ts te)
  case Nil
  then show ?case by simp
next
  case (Cons it items)
  show ?case
  proof (cases "length h \<le> it")
    case True
    with Cons.prems show ?thesis by simp
  next
    case False
    show ?thesis
    proof (cases "truediv (dict_get (h ! it) ''size'' (PInt 0)) (1024 * 1024 * 1024)")
      case (Inl e)
      with False Cons.prems show ?thesis by simp
    next
      case (Inr g)
      let ?h3 = "h @ [costed_copy (h ! it) g]"
      from False Inr Cons.prems
      have step: "cost_loop ?h3 items (est @ [length h]) (ts + g * storage_rate) (te + g * egress_rate)
                  = (h', Inr (est', ts', te'))"
        by (simp add: Let_def costed_copy_def)
      from Cons.IH [OF step] obtain new where new: "est' = (est @ [length h]) @ new"
        "list_all (\<lambda>a. length ?h3 \<le> a \<and> a < length h') new" by blast
      from cost_loop_frame [OF step] have "length ?h3 \<le> length h'" by simp
      with new have "est' = est @ (length h # new)"
        "list_all (\<lambda>a. length h \<le> a \<and> a < length h') (length h # new)"
        by (auto simp: list_all_iff)
      then show ?thesis by blast
    qed
  qed
qed

lemma cost_loop_success:
  "list_all (\<lambda>a. a < length h) items \<Longrightarrow> map (\<lambda>a. size_gb (h ! a)) items = map Some gs \<Longrightarrow>
     cost_loop h items est ts te
       = (h @ map2 (\<lambda>a g. costed_copy (h ! a) g) items gs,
          Inr (est @ [length h..<length h + length items],
               ts + sum_list (map (\<lambda>g. g * storage_rate) gs),
               te + sum_list (map (\<lambda>g. g * egress_rate) gs)))"
proof (induction items arbitrary: h est ts te gs)
  case Nil
  then show ?case by simp
next
  case (Cons it items)
  from Cons.prems(2) obtain g gs' where gs: "gs = g # gs'" "size_gb (h ! it) = Some g"
    "map (\<lambda>a. size_gb (h ! a)) items = map Some gs'" by (cases gs) auto
  from gs(2) have td: "truediv (dict_get (h ! it) ''size'' (PInt 0)) (1024 * 1024 * 1024) = Inr g"
    by (simp add: size_gb_def split: sum.splits)
  let ?h3 = "h @ [costed_copy (h ! it) g]"
  from Cons.prems(1) have it: "it < length h" and rest: "list_all (\<lambda>a. a < length h) items" by simp_all
  have same: "?h3 ! a = h ! a" if "a \<in> set items" for a
    using that rest by (simp add: list_all_iff nth_append)
  have p1: "list_all (\<lambda>a. a < length ?h3) items" using rest by (auto simp: list_all_iff)
  have p2: "map (\<lambda>a. size_gb (?h3 ! a)) items = map Some gs'"
    using gs(3) same by (metis (mono_tags, lifting) map_eq_conv)
  have m: "map2 (\<lambda>a g. costed_copy (?h3 ! a) g) items gs' = map2 (\<lambda>a g. costed_copy (h ! a) g) items gs'"
    using same by (auto simp: set_zip_leftD intro!: map_cong)
  have step: "cost_loop h (it # items) est ts te
      = cost_loop ?h3 items (est @ [length h]) (ts + g * storage_rate) (te + g * egress_rate)"
    using it td by (simp add: Let_def costed_copy_def)
  have upt: "[length h..<length h + length (it # items)] = length h # [length ?h3..<length ?h3 + length items]"
    by (simp add: upt_rec)
  show ?case
    unfolding step Cons.IH [OF p1 p2] m gs(1) upt
    by (simp add: algebra_simps)
qed

lemma cost_loop_Inr_numeric:
  "list_all (\<lambda>a. a < length h) items \<Longrightarrow> cost_loop h items est ts te = (h', Inr r) \<Longrightarrow>
     \<exists>gs. map (\<lambda>a. size_gb (h ! a)) items = map Some gs"
proof (induction items arbitrary: h est ts te)
  case Nil
  then show ?case by simp
next
  case (Cons it items)
  from Cons.prems(1) have it: "it < length h" and rest: "list_all (\<lambda>a. a < length h) items"
    by simp_all
  show ?case
  proof (cases "truediv (dict_get (h ! it) ''size'' (PInt 0)) (1024 * 1024 * 1024)")
    case (Inl e)
    with it Cons.prems(2) show ?thesis by simp
  next
    case (Inr g)
    let ?h3 = "h @ [costed_copy (h ! it) g]"
    from it Inr Cons.prems(2)
    have step: "cost_loop ?h3 items (est @ [length h]) (ts + g * storage_rate) (te + g * egress_rate)
                = (h', Inr r)"
      by (simp add: Let_def costed_copy_def)
    have p1: "list_all (\<lambda>a. a < length ?h3) items" using rest by (auto simp: list_all_iff)
    from Cons.IH [OF p1 step] obtain gs where gs: "map (\<lambda>a. size_gb (?h3 ! a)) items = map Some gs"
      by blast
    have "map (\<lambda>a. size_gb (?h3 ! a)) items = map (\<lambda>a. size_gb (h ! a)) items"
      using rest by (auto simp: list_all_iff nth_append)
    with gs have "map (\<lambda>a. size_gb (h ! a)) (it # items) = map Some (g # gs)"
      using Inr by (simp add: size_gb_def)
    then show ?thesis by blast
  qed
qed

lemma call_cost_estimates_success:
  "map size_gb xs = map Some gs \<Longrightarrow>
     call_cost_estimates xs
       = Inr (map2 costed_copy xs gs,
              sum_list (map (\<lambda>g. g * storage_rate) gs),
              sum_list (map (\<lambda>g. g * egress_rate) gs))"
proof -
  assume a: "map size_gb xs = map Some gs"
  then have len: "length gs = length xs" by (metis length_map)
  have p1: "list_all (\<lambda>a. a < length xs) [0..<length xs]" by (simp add: list_all_iff)
  have "map (\<lambda>a. size_gb (xs ! a)) [0..<length xs] = map size_gb (map ((!) xs) [0..<length xs])"
    by simp
  also have "\<dots> = map size_gb xs" by (simp only: map_nth)
  finally have p2: "map (\<lambda>a. size_gb (xs ! a)) [0..<length xs] = map Some gs"
    using a by simp
  have z: "map2 (\<lambda>a g. costed_copy (xs ! a) g) [0..<length xs] gs = map2 costed_copy xs gs"
    using len by (intro nth_equalityI) simp_all
  have n: "map ((!) (xs @ map2 costed_copy xs gs)) [length xs..<length xs + length xs]
           = map2 costed_copy xs gs"
    using len by (intro nth_equalityI) (simp_all add: nth_append)
  have "cost_estimates xs [0..<length xs]
          = (xs @ map2 costed_copy xs gs,
             Inr ([length xs..<length xs + length xs],
                  sum_list (map (\<lambda>g. g * storage_rate) gs),
                  sum_list (map (\<lambda>g. g * egress_rate) gs)))"
    unfolding cost_estimates_def cost_loop_success [OF p1 p2] z by simp
  then show ?thesis
    unfolding call_cost_estimates_def by (simp add: n)
qed

lemma call_cost_estimates_Inr:
  "call_cost_estimates xs = Inr c \<Longrightarrow> \<exists>gs. map size_gb xs = map Some gs"
proof -
  assume a: "call_cost_estimates xs = Inr c"
  then obtain h' r where r: "cost_loop xs [0..<length xs] [] 0 0 = (h', Inr r)"
    by (auto simp: call_cost_estimates_def cost_estimates_def split: prod.splits sum.splits)
  have p1: "list_all (\<lambda>a. a < length xs) [0..<length xs]" by (simp add: list_all_iff)
  from cost_loop_Inr_numeric [OF p1 r] obtain gs where
    "map (\<lambda>a. size_gb (xs ! a)) [0..<length xs] = map Some gs" by blast
  moreover have "map (\<lambda>a. size_gb (xs ! a)) [0..<length xs] = map size_gb (map ((!) xs) [0..<length xs])"
    by simp
  ultimately have "map size_gb xs = map Some gs" by (simp only: map_nth)
  then show ?thesis by blast
qed

text \<open>
  Claim C5. The rates are 0.005 per GB for storage and 0.01 per GB for egress. Whenever
  \<^verbatim>\<open>cost_estimates\<close> returns, every dict has a numeric size, the size in GB is the size
  in bytes divided by \<open>2^30\<close>, each returned dict is the copy of its input dict with the
  two estimates (size in GB times the rate), and each total is the sum of the per-item
  estimates. A dict of 1073741824 bytes gets the estimates 0.005 and 0.01.
\<close>

theorem cost_estimates_per_item_and_totals:
  "storage_rate = 5 / 1000 \<and> egress_rate = 1 / 100
   \<and> (\<forall>est total_storage total_egress.
        call_cost_estimates xs = Inr (est, total_storage, total_egress) \<longrightarrow>
        (\<exists>gs. map size_gb xs = map Some gs
           \<and> est = map2 costed_copy xs gs
           \<and> total_storage = sum_list (map (\<lambda>g. g * storage_rate) gs)
           \<and> total_egress = sum_list (map (\<lambda>g. g * egress_rate) gs)))
   \<and> (\<forall>d n. dict_get d ''size'' (PInt 0) = PInt n \<longrightarrow> size_gb d = Some (of_int n / 2 ^ 30))
   \<and> call_cost_estimates [[(''name'', PStr ''pve.tar.gz''), (''size'', PInt 1073741824)]]
       = Inr ([[(''name'', PStr ''pve.tar.gz''), (''size'', PInt 1073741824),
                (''est_storage'', PFloat (5 / 1000)), (''est_egress'', PFloat (1 / 100))]],
              5 / 1000, 1 / 100)"
proof (intro conjI allI impI)
  show "storage_rate = 5 / 1000" by (simp add: storage_rate_def)
  show "egress_rate = 1 / 100" by (simp add: egress_rate_def)
next
  fix est total_storage total_egress
  assume a: "call_cost_estimates xs = Inr (est, total_storage, total_egress)"
  from call_cost_estimates_Inr [OF a] obtain gs where gs: "map size_gb xs = map Some gs" by blast
  from call_cost_estimates_success [OF gs] a gs
  show "\<exists>gs. map size_gb xs = map Some gs
           \<and> est = map2 costed_copy xs gs
           \<and> total_storage = sum_list (map (\<lambda>g. g * storage_rate) gs)
           \<and> total_egress = sum_list (map (\<lambda>g. g * egress_rate) gs)"
    by auto
next
  fix d n
  assume "dict_get d ''size'' (PInt 0) = PInt n"
  then show "size_gb d = Some (of_int n / 2 ^ 30)" by (simp add: size_gb_def)
next
  show "call_cost_estimates [[(''name'', PStr ''pve.tar.gz''), (''size'', PInt 1073741824)]]
       = Inr ([[(''name'', PStr ''pve.tar.gz''), (''size'', PInt 1073741824),
                (''est_storage'', PFloat (5 / 1000)), (''est_egress'', PFloat (1 / 100))]],
              5 / 1000, 1 / 100)"
    by code_simp
qed

theorem cost_estimates_per_item_and_totals_witness:
  "call_cost_estimates [[(''size'', PInt 2147483648)], [(''name'', PStr ''empty'')]]
     = Inr ([[(''size'', PInt 2147483648), (''est_storage'', PFloat (1 / 100)),
              (''est_egress'', PFloat (1 / 50))],
             [(''name'', PStr ''empty''), (''est_storage'', PFloat 0), (''est_egress'', PFloat 0)]],
            1 / 100, 1 / 50)
   \<and> (\<exists>gs. map size_gb [[(''size'', PInt 2147483648)], [(''name'', PStr ''empty'')]] = map Some gs
         \<and> [[(''size'', PInt 2147483648), (''est_storage'', PFloat (1 / 100)),
              (''est_egress'', PFloat (1 / 50))],
             [(''name'', PStr ''empty''), (''est_storage'', PFloat 0), (''est_egress'', PFloat 0)]]
            = map2 costed_copy [[(''size'', PInt 2147483648)], [(''name'', PStr ''empty'')]] gs
         \<and> (1 / 100 :: rat) = sum_list (map (\<lambda>g. g * storage_rate) gs)
         \<and> (1 / 50 :: rat) = sum_list (map (\<lambda>g. g * egress_rate) gs))
   \<and> dict_get [(''size'', PInt 2147483648)] ''size'' (PInt 0) = PInt 2147483648
   \<and> size_gb [(''size'', PInt 2147483648)] = Some (of_int 2147483648 / 2 ^ 30)"
proof -
  let ?xs = "[[(''size'', PInt 2147483648)], [(''name'', PStr ''empty'')]]"
  have ev: "call_cost_estimates ?xs
     = Inr ([[(''size'', PInt 2147483648), (''est_storage'', PFloat (1 / 100)),
              (''est_egress'', PFloat (1 / 50))],
             [(''name'', PStr ''empty''), (''est_storage'', PFloat 0), (''est_egress'', PFloat 0)]],
            1 / 100, 1 / 50)"
    by code_simp
  have g: "dict_get [(''size'', PInt 2147483648)] ''size'' (PInt 0) = PInt 2147483648"
    by (simp add: dict_get_def)
  note inst = cost_estimates_per_item_and_totals [of ?xs]
  note a = inst [THEN conjunct2, THEN conjunct2, THEN conjunct1, rule_format, OF ev]
  note b = inst [THEN conjunct2, THEN conjunct2, THEN conjunct2, THEN conjunct1, rule_format, OF g]
  from ev a g b show ?thesis by (intro conjI)
qed

text \<open>
  Claim C10. \<^verbatim>\<open>cost_estimates\<close> leaves every dict that existed before the call as it
  was, whether it returns or raises: the store only grows, the dicts the argument refers
  to read the same afterwards, and every returned reference is to a dict created by the
  call.
\<close>

theorem cost_estimates_leaves_input_unchanged:
  "cost_estimates h items = (h', r) \<longrightarrow>
     length h \<le> length h'
     \<and> (\<forall>a<length h. h' ! a = h ! a)
     \<and> (list_all (\<lambda>a. a < length h) items \<longrightarrow> map ((!) h') items = map ((!) h) items)
     \<and> (\<forall>est total_storage total_egress. r = Inr (est, total_storage, total_egress) \<longrightarrow>
          list_all (\<lambda>a. length h \<le> a \<and> a < length h') est)"
proof
  assume a: "cost_estimates h items = (h', r)"
  then have loop: "cost_loop h items [] 0 0 = (h', r)" by (simp add: cost_estimates_def)
  from cost_loop_frame [OF loop] have len: "length h \<le> length h'" and tk: "take (length h) h' = h"
    by simp_all
  have same: "h' ! a = h ! a" if "a < length h" for a
  proof -
    from that have "take (length h) h' ! a = h' ! a" by simp
    with tk show ?thesis by simp
  qed
  have items: "map ((!) h') items = map ((!) h) items" if "list_all (\<lambda>a. a < length h) items"
    using that same by (simp add: list_all_iff)
  have fresh: "list_all (\<lambda>a. length h \<le> a \<and> a < length h') est"
    if "r = Inr (est, total_storage, total_egress)" for est total_storage total_egress
    using cost_loop_fresh [of h items "[]" 0 0 h' est total_storage total_egress] loop that by auto
  from len same items fresh
  show "length h \<le> length h'
     \<and> (\<forall>a<length h. h' ! a = h ! a)
     \<and> (list_all (\<lambda>a. a < length h) items \<longrightarrow> map ((!) h') items = map ((!) h) items)
     \<and> (\<forall>est total_storage total_egress. r = Inr (est, total_storage, total_egress) \<longrightarrow>
          list_all (\<lambda>a. length h \<le> a \<and> a < length h') est)"
    by blast
qed

theorem cost_estimates_leaves_input_unchanged_witness:
  "cost_estimates [[(''name'', PStr ''a.tar.gz''), (''size'', PInt 1073741824)], [(''size'', PInt 0)]] [0, 1, 0]
     = ([[(''name'', PStr ''a.tar.gz''), (''size'', PInt 1073741824)],
         [(''size'', PInt 0)],
         [(''name'', PStr ''a.tar.gz''), (''size'', PInt 1073741824),
          (''est_storage'', PFloat (1 / 200)), (''est_egress'', PFloat (1 / 100))],
         [(''size'', PInt 0), (''est_storage'', PFloat 0), (''est_egress'', PFloat 0)],
         [(''name'', PStr ''a.tar.gz''), (''size'', PInt 1073741824),
          (''est_storage'', PFloat (1 / 200)), (''est_egress'', PFloat (1 / 100))]],
        Inr ([2, 3, 4], 1 / 100, 1 / 50))
   \<and> list_all (\<lambda>a. a < length [[(''name'', PStr ''a.tar.gz''), (''size'', PInt 1073741824)],
                                [(''size'', PInt 0)]]) [0, 1, 0]
   \<and> list_all (\<lambda>a. length [[(''name'', PStr ''a.tar.gz''), (''size'', PInt 1073741824)],
                            [(''size'', PInt 0)]] \<le> a) [2, 3, 4]"
proof -
  let ?h = "[[(''name'', PStr ''a.tar.gz''), (''size'', PInt 1073741824)], [(''size'', PInt 0)]]"
  let ?h' = "[[(''name'', PStr ''a.tar.gz''), (''size'', PInt 1073741824)],
         [(''size'', PInt 0)],
         [(''name'', PStr ''a.tar.gz''), (''size'', PInt 1073741824),
          (''est_storage'', PFloat (1 / 200)), (''est_egress'', PFloat (1 / 100))],
         [(''size'', PInt 0), (''est_storage'', PFloat 0), (''est_egress'', PFloat 0)],
         [(''name'', PStr ''a.tar.gz''), (''size'', PInt 1073741824),
          (''est_storage'', PFloat (1 / 200)), (''est_egress'', PFloat (1 / 100))]]"
  have ev: "cost_estimates ?h [0, 1, 0] = (?h', Inr ([2, 3, 4], 1 / 100, 1 / 50))" by code_simp
  have v: "list_all (\<lambda>a. a < length ?h) [0, 1, 0]" by simp
  note inst = cost_estimates_leaves_input_unchanged [of ?h "[0, 1, 0]" ?h' "Inr ([2, 3, 4], 1 / 100, 1 / 50)",
                 rule_format, OF ev]
  from inst have "list_all (\<lambda>a. length ?h \<le> a \<and> a < length ?h') [2, 3, 4]" by blast
  then have f: "list_all (\<lambda>a. length ?h \<le> a) [2, 3, 4]" by (simp add: list_all_iff)
  from ev v f show ?thesis by (intro conjI)
qed

section \<open>Properties of the combined views\<close>

lemma numeric_sizes:
  "list_all (\<lambda>d. size_gb d \<noteq> None) xs \<Longrightarrow> \<exists>gs. map size_gb xs = map Some gs"
proof -
  assume "list_all (\<lambda>d. size_gb d \<noteq> None) xs"
  then have "map size_gb xs = map Some (map (\<lambda>d. the (size_gb d)) xs)"
    by (simp add: list_all_iff)
  then show ?thesis by blast
qed

lemma size_gb_remote_item: "size_gb (remote_item f) \<noteq> None"
  by (simp add: size_gb_def remote_item_def dict_get_def)

lemma b2_list_items:
  "\<exists>fs. get_items (b2_list loads res max_items) = map remote_item fs"
proof (cases res)
  case (fields code out err)
  show ?thesis
  proof (cases "code \<noteq> 0 \<or> (\<exists>e. loads out = Inl e)")
    case True
    with fields have "get_items (b2_list loads res max_items) = map remote_item []"
      by (auto simp: b2_list_def get_items_def)
    then show ?thesis by blast
  next
    case False
    then obtain files where "code = 0" "loads out = Inr files" by (cases "loads out") auto
    with fields have "get_items (b2_list loads res max_items)
        = map remote_item (py_take max_items (sorted_reverse get_modtime files))"
      by (simp add: b2_list_def get_items_def Let_def)
    then show ?thesis by blast
  qed
qed

lemma b2_list_items_numeric:
  "list_all (\<lambda>d. size_gb d \<noteq> None) (get_items (b2_list loads res max_items))"
proof -
  obtain fs where fs: "get_items (b2_list loads res max_items) = map remote_item fs"
    using b2_list_items by blast
  have "list_all (\<lambda>d. size_gb d \<noteq> None) (map remote_item fs)"
    unfolding list_all_iff using size_gb_remote_item by (auto simp del: not_None_eq)
  with fs show ?thesis by simp
qed

lemma b2_list_costs:
  "\<exists>c. call_cost_estimates (get_items (b2_list loads res max_items)) = Inr c"
  using numeric_sizes [OF b2_list_items_numeric] call_cost_estimates_success by blast

lemma b2_list_failure_costs:
  "fst res \<noteq> 0 \<Longrightarrow>
     call_cost_estimates (get_items (b2_list loads res max_items)) = Inr ([], 0, 0)"
proof -
  assume "fst res \<noteq> 0"
  then have "get_items (b2_list loads res max_items) = []"
    by (cases res) (simp add: b2_list_def get_items_def)
  moreover have "call_cost_estimates [] = Inr ([], 0, 0)"
    using call_cost_estimates_success [of "[]" "[]"] by simp
  ultimately show ?thesis by simp
qed

lemma api_backups_split:
  "call_cost_estimates (get_items (b2_list (w_loads w) (w_rclone_configs w) 200)) = Inr cc \<Longrightarrow>
   call_cost_estimates (get_items (b2_list (w_loads w) (w_rclone_vms w) 200)) = Inr cv \<Longrightarrow>
   api_backups w =
     (case local_tiers w of
        Inl e \<Rightarrow> Inl e
      | Inr (lc, lv, lvd) \<Rightarrow>
          Inr \<lparr>b2_configs = with_costs (b2_list (w_loads w) (w_rclone_configs w) 200) cc,
               b2_vms = with_costs (b2_list (w_loads w) (w_rclone_vms w) 200) cv,
               local_configs = lc, local_vms = lv, local_vms_dump = lvd\<rparr>)"
  by (simp add: api_backups_def local_tiers_def and_then_def Let_def split: sum.splits)

lemma local_tiers_rclone [simp]:
  "local_tiers (w\<lparr>w_rclone_configs := res\<rparr>) = local_tiers w" "local_tiers (w\<lparr>w_rclone_vms := res\<rparr>) = local_tiers w"
  by (simp_all add: local_tiers_def)

lemma api_backups_other_remote:
  assumes "api_backups w = Inr v"
  shows "\<exists>v'. api_backups (w\<lparr>w_rclone_configs := res\<rparr>) = Inr v'
           \<and> b2_vms v' = b2_vms v \<and> local_configs v' = local_configs v
           \<and> local_vms v' = local_vms v \<and> local_vms_dump v' = local_vms_dump v
           \<and> (fst res \<noteq> 0 \<longrightarrow>
                b2_configs v' = with_costs (b2_list (w_loads w) res 200) ([], 0, 0))"
    and "\<exists>v'. api_backups (w\<lparr>w_rclone_vms := res\<rparr>) = Inr v'
           \<and> b2_configs v' = b2_configs v \<and> local_configs v' = local_configs v
           \<and> local_vms v' = local_vms v \<and> local_vms_dump v' = local_vms_dump v
           \<and> (fst res \<noteq> 0 \<longrightarrow>
                b2_vms v' = with_costs (b2_list (w_loads w) res 200) ([], 0, 0))"
proof -
  obtain cc where cc: "call_cost_estimates (get_items (b2_list (w_loads w) (w_rclone_configs w) 200)) = Inr cc"
    using b2_list_costs by blast
  obtain cv where cv: "call_cost_estimates (get_items (b2_list (w_loads w) (w_rclone_vms w) 200)) = Inr cv"
    using b2_list_costs by blast
  obtain cr where cr: "call_cost_estimates (get_items (b2_list (w_loads w) res 200)) = Inr cr"
    using b2_list_costs by blast
  have cr0: "cr = ([], 0, 0)" if "fst res \<noteq> 0"
    using b2_list_failure_costs [OF that, of "w_loads w" 200] cr by simp
  from assms api_backups_split [OF cc cv] obtain lc lv lvd where
    l: "local_tiers w = Inr (lc, lv, lvd)" by (auto split: sum.splits)
  with assms api_backups_split [OF cc cv] have v:
    "v = \<lparr>b2_configs = with_costs (b2_list (w_loads w) (w_rclone_configs w) 200) cc,
          b2_vms = with_costs (b2_list (w_loads w) (w_rclone_vms w) 200) cv,
          local_configs = lc, local_vms = lv, local_vms_dump = lvd\<rparr>" by simp
  have "api_backups (w\<lparr>w_rclone_configs := res\<rparr>)
          = Inr \<lparr>b2_configs = with_costs (b2_list (w_loads w) res 200) cr,
                 b2_vms = with_costs (b2_list (w_loads w) (w_rclone_vms w) 200) cv,
                 local_configs = lc, local_vms = lv, local_vms_dump = lvd\<rparr>"
    using api_backups_split [of "w\<lparr>w_rclone_configs := res\<rparr>" cr cv] cr cv l by simp
  with v cr0 show "\<exists>v'. api_backups (w\<lparr>w_rclone_configs := res\<rparr>) = Inr v'
           \<and> b2_vms v' = b2_vms v \<and> local_configs v' = local_configs v
           \<and> local_vms v' = local_vms v \<and> local_vms_dump v' = local_vms_dump v
           \<and> (fst res \<noteq> 0 \<longrightarrow>
                b2_configs v' = with_costs (b2_list (w_loads w) res 200) ([], 0, 0))"
    by simp
  have "api_backups (w\<lparr>w_rclone_vms := res\<rparr>)
          = Inr \<lparr>b2_configs = with_costs (b2_list (w_loads w) (w_rclone_configs w) 200) cc,
                 b2_vms = with_costs (b2_list (w_loads w) res 200) cr,
                 local_configs = lc, local_vms = lv, local_vms_dump = lvd\<rparr>"
    using api_backups_split [of "w\<lparr>w_rclone_vms := res\<rparr>" cc cr] cc cr l by simp
  with v cr0 show "\<exists>v'. api_backups (w\<lparr>w_rclone_vms := res\<rparr>) = Inr v'
           \<and> b2_configs v' = b2_configs v \<and> local_configs v' = local_configs v
           \<and> local_vms v' = local_vms v \<and> local_vms_dump v' = local_vms_dump v
           \<and> (fst res \<noteq> 0 \<longrightarrow>
                b2_vms v' = with_costs (b2_list (w_loads w) res 200) ([], 0, 0))"
    by simp
qed

lemma api_status_other_remote:
  assumes "api_status w = Inr s"
  shows "\<exists>s'. api_status (w\<lparr>w_rclone_configs := res\<rparr>) = Inr s'
           \<and> st_remote_vms s' = st_remote_vms s \<and> st_local_configs s' = st_local_configs s
           \<and> st_local_vms s' = st_local_vms s
           \<and> st_remote_configs s' = b2_stats (w_loads w) res"
    and "\<exists>s'. api_status (w\<lparr>w_rclone_vms := res\<rparr>) = Inr s'
           \<and> st_remote_configs s' = st_remote_configs s \<and> st_local_configs s' = st_local_configs s
           \<and> st_local_vms s' = st_local_vms s
           \<and> st_remote_vms s' = b2_stats (w_loads w) res"
  using assms by (auto simp: api_status_def and_then_def split: sum.splits)

text \<open>
  Claim C7. In \<^verbatim>\<open>api_backups\<close> and in \<^verbatim>\<open>api_status\<close>, replace the outcome of one
  remote listing by any other outcome, a failure included: the handler still answers, and
  every other tier of the answer is the same as before, items, totals and costs included.
  When the new outcome is a failure, the tier of that listing in \<^verbatim>\<open>api_backups\<close> is the
  empty item list with its error text and zero costs.
\<close>

theorem remote_failure_leaves_other_tiers:
  "(\<forall>v res. api_backups w = Inr v \<longrightarrow>
      (\<exists>v'. api_backups (w\<lparr>w_rclone_configs := res\<rparr>) = Inr v'
         \<and> b2_vms v' = b2_vms v \<and> local_configs v' = local_configs v
         \<and> local_vms v' = local_vms v \<and> local_vms_dump v' = local_vms_dump v
         \<and> (fst res \<noteq> 0 \<longrightarrow>
              b2_configs v' = with_costs (b2_list (w_loads w) res 200) ([], 0, 0))))
   \<and> (\<forall>v res. api_backups w = Inr v \<longrightarrow>
      (\<exists>v'. api_backups (w\<lparr>w_rclone_vms := res\<rparr>) = Inr v'
         \<and> b2_configs v' = b2_configs v \<and> local_configs v' = local_configs v
         \<and> local_vms v' = local_vms v \<and> local_vms_dump v' = local_vms_dump v
         \<and> (fst res \<noteq> 0 \<longrightarrow>
              b2_vms v' = with_costs (b2_list (w_loads w) res 200) ([], 0, 0))))
   \<and> (\<forall>s res. api_status w = Inr s \<longrightarrow>
      (\<exists>s'. api_status (w\<lparr>w_rclone_configs := res\<rparr>) = Inr s'
         \<and> st_remote_vms s' = st_remote_vms s \<and> st_local_configs s' = st_local_configs s
         \<and> st_local_vms s' = st_local_vms s
         \<and> st_remote_configs s' = b2_stats (w_loads w) res))
   \<and> (\<forall>s res. api_status w = Inr s \<longrightarrow>
      (\<exists>s'. api_status (w\<lparr>w_rclone_vms := res\<rparr>) = Inr s'
         \<and> st_remote_configs s' = st_remote_configs s \<and> st_local_configs s' = st_local_configs s
         \<and> st_local_vms s' = st_local_vms s
         \<and> st_remote_vms s' = b2_stats (w_loads w) res))"
  using api_backups_other_remote api_status_other_remote by (intro conjI allI impI)

theorem remote_failure_leaves_other_tiers_witness:
  "\<exists>v. api_backups example_world = Inr v
      \<and> fst ((1, [], ''boom'') :: cmd_result) \<noteq> 0
      \<and> api_backups (example_world\<lparr>w_rclone_configs := (1, [], ''boom'')\<rparr>)
          = Inr (v\<lparr>b2_configs :=
                     \<lparr>s_count = None, s_size = None, s_total = None,
                      s_error = Some (Text ''boom''), s_items = Some [],
                      t_total_storage = 0, t_total_egress = 0\<rparr>\<rparr>)
      \<and> b2_vms v
          = \<lparr>s_count = None, s_size = None, s_total = Some 1073741824, s_error = None,
             s_items = Some [[(''name'', PStr ''pve.tar.gz''), (''size'', PInt 1073741824),
                              (''size_h'', PStr ''1.0 GB''), (''time'', PStr ''2024-01-02T03:04:05Z''),
                              (''est_storage'', PFloat (1 / 200)), (''est_egress'', PFloat (1 / 100))]],
             t_total_storage = 1 / 200, t_total_egress = 1 / 100\<rparr>
      \<and> local_configs v
          = \<lparr>s_count = Some 1, s_size = Some 2048, s_total = None, s_error = None,
             s_items = Some [[(''name'', PStr ''pve-config.tar.gz''), (''size'', PInt 2048),
                              (''mtime'', PFloat 1704067200),
                              (''est_storage'', PFloat (1 / 104857600)),
                              (''est_egress'', PFloat (1 / 52428800))]],
             t_total_storage = 1 / 104857600, t_total_egress = 1 / 52428800\<rparr>
      \<and> local_vms_dump v
          = \<lparr>s_count = None, s_size = None, s_total = None, s_error = None,
             s_items = Some [[(''name'', PStr ''vzdump-qemu-100.vma.zst''),
                              (''path'', PStr ''/var/lib/vz/dump/vzdump-qemu-100.vma.zst''),
                              (''size'', PInt 3221225472), (''size_h'', PStr ''3.0 GB''),
                              (''time'', PStr ''2024-01-02 00:00:00''),
                              (''est_storage'', PFloat (3 / 200)), (''est_egress'', PFloat (3 / 100))]],
             t_total_storage = 3 / 200, t_total_egress = 3 / 100\<rparr>"
proof -
  let ?remote = "\<lparr>s_count = None, s_size = None, s_total = Some 1073741824, s_error = None,
             s_items = Some [[(''name'', PStr ''pve.tar.gz''), (''size'', PInt 1073741824),
                              (''size_h'', PStr ''1.0 GB''), (''time'', PStr ''2024-01-02T03:04:05Z''),
                              (''est_storage'', PFloat (1 / 200)), (''est_egress'', PFloat (1 / 100))]],
             t_total_storage = 1 / 200, t_total_egress = 1 / 100\<rparr>"
  let ?configs = "\<lparr>s_count = Some 1, s_size = Some 2048, s_total = None, s_error = None,
             s_items = Some [[(''name'', PStr ''pve-config.tar.gz''), (''size'', PInt 2048),
                              (''mtime'', PFloat 1704067200),
                              (''est_storage'', PFloat (1 / 104857600)),
                              (''est_egress'', PFloat (1 / 52428800))]],
             t_total_storage = 1 / 104857600, t_total_egress = 1 / 52428800\<rparr>"
  let ?vms = "\<lparr>s_count = Some 0, s_size = Some 0, s_total = None, s_error = None,
             s_items = Some [], t_total_storage = 0, t_total_egress = 0\<rparr>"
  let ?dump = "\<lparr>s_count = None, s_size = None, s_total = None, s_error = None,
             s_items = Some [[(''name'', PStr ''vzdump-qemu-100.vma.zst''),
                              (''path'', PStr ''/var/lib/vz/dump/vzdump-qemu-100.vma.zst''),
                              (''size'', PInt 3221225472), (''size_h'', PStr ''3.0 GB''),
                              (''time'', PStr ''2024-01-02 00:00:00''),
                              (''est_storage'', PFloat (3 / 200)), (''est_egress'', PFloat (3 / 100))]],
             t_total_storage = 3 / 200, t_total_egress = 3 / 100\<rparr>"
  let ?failed = "\<lparr>s_count = None, s_size = None, s_total = None,
                      s_error = Some (Text ''boom''), s_items = Some [],
                      t_total_storage = 0, t_total_egress = 0\<rparr>"
  let ?v = "\<lparr>b2_configs = ?remote, b2_vms = ?remote, local_configs = ?configs,
            local_vms = ?vms, local_vms_dump = ?dump\<rparr>"
  let ?res = "(1, [], ''boom'') :: cmd_result"
  have ev: "api_backups example_world = Inr ?v" by code_simp
  have failed: "fst ?res \<noteq> 0" by simp
  have empty: "with_costs (b2_list (w_loads example_world) ?res 200) ([], 0, 0) = ?failed"
    by code_simp
  from remote_failure_leaves_other_tiers [of example_world, THEN conjunct1, rule_format, OF ev, of ?res]
  obtain v' where v': "api_backups (example_world\<lparr>w_rclone_configs := ?res\<rparr>) = Inr v'"
      "b2_vms v' = b2_vms ?v" "local_configs v' = local_configs ?v"
      "local_vms v' = local_vms ?v" "local_vms_dump v' = local_vms_dump ?v"
      "fst ?res \<noteq> 0 \<longrightarrow> b2_configs v' = with_costs (b2_list (w_loads example_world) ?res 200) ([], 0, 0)"
    by blast
  from v'(6) failed empty have "b2_configs v' = ?failed" by simp
  with v'(2-5) have "v' = ?v\<lparr>b2_configs := ?failed\<rparr>" by (cases v') simp
  with v'(1) have other: "api_backups (example_world\<lparr>w_rclone_configs := ?res\<rparr>)
      = Inr (?v\<lparr>b2_configs := ?failed\<rparr>)" by simp
  have sel: "b2_vms ?v = ?remote" "local_configs ?v = ?configs" "local_vms_dump ?v = ?dump"
    by simp_all
  from ev failed other sel show ?thesis by (intro exI [of _ ?v] conjI)
qed

end
